theory Spec2Isabelle
  imports Main "HOL-Library.Sublist"
begin

section \<open>The contact-form worker (middleware/src/index.js)\<close>

text \<open>
  A shallow embedding of the worker's \<^verbatim>\<open>fetch\<close> handler and its helpers.

  A JavaScript string is a sequence of UTF-16 code units and \<^verbatim>\<open>.length\<close> counts
  them. Here a string is a \<^typ>\<open>string\<close> and a \<^typ>\<open>char\<close> stands for one code unit
  in the range U+0000 to U+00FF; code units above U+00FF are not represented. Those
  are ordinary characters for every function below (not matched by any character
  class of the source), except that \<^verbatim>\<open>trim\<close> and \<^verbatim>\<open>parseInt\<close> also skip the
  white space characters above U+00FF.
\<close>

subsection \<open>Constants (lines 24 to 41)\<close>

definition ALLOWED_ORIGINS :: "string set" where
  "ALLOWED_ORIGINS =
     {''https://raduhhr.xyz'', ''https://www.raduhhr.xyz'', ''https://cf-form-page.pages.dev''}"

definition ALLOWED_TURNSTILE_HOSTNAMES :: "string set" where
  "ALLOWED_TURNSTILE_HOSTNAMES =
     {''raduhhr.xyz'', ''www.raduhhr.xyz'', ''cf-form-page.pages.dev''}"

definition MAX_BODY_BYTES :: nat where
  "MAX_BODY_BYTES = 10000"

definition RATE_LIMIT_MAX :: int where
  "RATE_LIMIT_MAX = 5"

definition RATE_LIMIT_WINDOW :: nat where
  "RATE_LIMIT_WINDOW = 3600"

subsection \<open>JavaScript values and strings\<close>

text \<open>
  The values \<^verbatim>\<open>JSON.parse\<close> and \<^verbatim>\<open>response.json()\<close> produce, and \<^verbatim>\<open>undefined\<close>
  for a property that is not there. The handler observes only the truthiness of a
  number, so a number is kept as an integer (zero is the falsy one).
\<close>

datatype jsval =
    JUndefined
  | JNull
  | JBool bool
  | JNum int
  | JStr string
  | JArr "jsval list"
  | JObj "(string \<times> jsval) list"

fun truthy :: "jsval \<Rightarrow> bool" where
  "truthy JUndefined = False"
| "truthy JNull = False"
| "truthy (JBool b) = b"
| "truthy (JNum n) = (n \<noteq> 0)"
| "truthy (JStr s) = (s \<noteq> [])"
| "truthy (JArr xs) = True"
| "truthy (JObj ps) = True"

text \<open>
  \<^verbatim>\<open>v.k\<close> for the property names the handler reads (name, email, message,
  turnstileToken, success, hostname): a TypeError (\<open>None\<close>) on null and undefined,
  the own property of an object, and \<^verbatim>\<open>undefined\<close> otherwise, since no prototype
  of a JSON value has one of these names.
\<close>

fun get_field :: "jsval \<Rightarrow> string \<Rightarrow> jsval option" where
  "get_field JUndefined k = None"
| "get_field JNull k = None"
| "get_field (JObj ps) k = Some (case map_of ps k of Some v \<Rightarrow> v | None \<Rightarrow> JUndefined)"
| "get_field v k = Some JUndefined"

text \<open>\<^verbatim>\<open>v?.k\<close>: undefined instead of the TypeError.\<close>

definition optional_field :: "jsval \<Rightarrow> string \<Rightarrow> jsval" where
  "optional_field v k = (case get_field v k of None \<Rightarrow> JUndefined | Some x \<Rightarrow> x)"

text \<open>\<^verbatim>\<open>x || d\<close> for a string or null \<open>x\<close> (a header, a binding of the environment).\<close>

definition or_default :: "string option \<Rightarrow> string \<Rightarrow> string" where
  "or_default x d = (case x of None \<Rightarrow> d | Some s \<Rightarrow> if s = [] then d else s)"

text \<open>
  White space and line terminators, as \<^verbatim>\<open>String.prototype.trim\<close> and
  \<^verbatim>\<open>parseInt\<close> strip them: TAB, LF, VT, FF, CR, SPACE and NO-BREAK SPACE.
\<close>

definition js_whitespace :: "char \<Rightarrow> bool" where
  "js_whitespace c = ((of_char c :: nat) \<in> {9, 10, 11, 12, 13, 32, 160})"

definition trim :: "string \<Rightarrow> string" where
  "trim s = rev (dropWhile js_whitespace (rev (dropWhile js_whitespace s)))"

text \<open>
  \<^verbatim>\<open>(payload.k || "").trim()\<close>: \<open>None\<close> is the TypeError thrown when the payload
  is null, or when the property is a truthy value that is not a string (it has no
  \<^verbatim>\<open>trim\<close> method).
\<close>

definition trimmed_field :: "jsval \<Rightarrow> string \<Rightarrow> string option" where
  "trimmed_field payload k =
     (case get_field payload k of
        None \<Rightarrow> None
      | Some v \<Rightarrow>
          (case (if truthy v then v else JStr []) of
             JStr s \<Rightarrow> Some (trim s)
           | _ \<Rightarrow> None))"

subsection \<open>parseInt and String on the stored counter\<close>

definition digit_value :: "char \<Rightarrow> nat option" where
  "digit_value c =
     (let n = (of_char c :: nat) in
      if 48 \<le> n \<and> n \<le> 57 then Some (n - 48)
      else if 97 \<le> n \<and> n \<le> 122 then Some (n - 87)
      else if 65 \<le> n \<and> n \<le> 90 then Some (n - 55)
      else None)"

definition is_digit :: "nat \<Rightarrow> char \<Rightarrow> bool" where
  "is_digit radix c = (case digit_value c of None \<Rightarrow> False | Some d \<Rightarrow> d < radix)"

definition digits_value :: "nat \<Rightarrow> string \<Rightarrow> nat" where
  "digits_value radix z =
     foldl (\<lambda>a c. a * radix + (case digit_value c of None \<Rightarrow> 0 | Some d \<Rightarrow> d)) 0 z"

text \<open>
  \<^verbatim>\<open>parseInt(s)\<close> with no radix: leading white space is skipped, then a sign, then
  \<^verbatim>\<open>0x\<close> or \<^verbatim>\<open>0X\<close> selects radix 16, and the longest prefix of digits is read.
  \<open>None\<close> is NaN. The result is the mathematical integer; JavaScript rounds it to
  a double, which is exact up to \<open>2^53\<close> and keeps every comparison with 5.
\<close>

definition parseInt :: "string \<Rightarrow> int option" where
  "parseInt s =
     (let s1 = dropWhile js_whitespace s;
          sign = (case s1 of c # r \<Rightarrow> if c = CHR ''-'' then (-1 :: int) else 1 | [] \<Rightarrow> 1);
          s2 = (case s1 of c # r \<Rightarrow> if c = CHR ''-'' \<or> c = CHR ''+'' then r else s1 | [] \<Rightarrow> s1);
          hex = (case s2 of
                   c # d # r \<Rightarrow> c = CHR ''0'' \<and> (d = CHR ''x'' \<or> d = CHR ''X'')
                 | _ \<Rightarrow> False);
          radix = (if hex then 16 else 10);
          s3 = (if hex then drop 2 s2 else s2);
          z = takeWhile (is_digit radix) s3
      in if z = [] then None else Some (sign * int (digits_value radix z)))"

definition digit_char :: "nat \<Rightarrow> char" where
  "digit_char d = char_of (48 + d)"

fun decimal :: "nat \<Rightarrow> string" where
  "decimal n =
     (if n < 10 then [digit_char n]
      else decimal (n div 10) @ [digit_char (n mod 10)])"

text \<open>\<^verbatim>\<open>String(n)\<close> for an integer \<open>n\<close> (below \<open>10^21\<close> in magnitude).\<close>

definition String :: "int \<Rightarrow> string" where
  "String n = (if n < 0 then CHR ''-'' # decimal (nat (- n)) else decimal (nat n))"

subsection \<open>escapeHtml (lines 333 to 342)\<close>

definition entity_map :: "(char \<times> string) list" where
  \<open>entity_map =
     [(CHR ''&'', ''&amp;''),
      (CHR ''<'', ''&lt;''),
      (CHR ''>'', ''&gt;''),
      (CHR ''"'', ''&quot;''),
      (CHR 0x27, ''&#39;'')]\<close>

text \<open>The character class \<^verbatim>\<open>[&<>"']\<close> of the replace call.\<close>

definition html_special :: "char \<Rightarrow> bool" where
  \<open>html_special c = (c \<in> {CHR ''&'', CHR ''<'', CHR ''>'', CHR ''"'', CHR 0x27})\<close>

text \<open>
  The replacement callback \<^verbatim>\<open>(char) => map[char]\<close>; a character with no entry
  would be replaced by the text of \<^verbatim>\<open>undefined\<close>.
\<close>

definition replacement :: "char \<Rightarrow> string" where
  "replacement c = (case map_of entity_map c of Some e \<Rightarrow> e | None \<Rightarrow> ''undefined'')"

definition escapeHtml :: "string \<Rightarrow> string" where
  "escapeHtml text = concat (map (\<lambda>c. if html_special c then replacement c else [c]) text)"

subsection \<open>isValidEmail (lines 295 to 304)\<close>

text \<open>
  Regular expressions as far as the email pattern needs them. \<open>RUpto n r\<close> is the
  bounded repetition \<^verbatim>\<open>r{0,n}\<close>. The pattern is anchored at both ends and has no
  back-references, so \<^verbatim>\<open>pattern.test(s)\<close> is membership of the whole string in its
  language, decided here by derivatives.
\<close>

datatype rexp =
    RNone
  | REps
  | RClass "char \<Rightarrow> bool"
  | RSeq rexp rexp
  | RAlt rexp rexp
  | RStar rexp
  | RPlus rexp
  | ROpt rexp
  | RUpto nat rexp

fun nullable :: "rexp \<Rightarrow> bool" where
  "nullable RNone = False"
| "nullable REps = True"
| "nullable (RClass P) = False"
| "nullable (RSeq r s) = (nullable r \<and> nullable s)"
| "nullable (RAlt r s) = (nullable r \<or> nullable s)"
| "nullable (RStar r) = True"
| "nullable (RPlus r) = nullable r"
| "nullable (ROpt r) = True"
| "nullable (RUpto n r) = True"

fun deriv :: "char \<Rightarrow> rexp \<Rightarrow> rexp" where
  "deriv c RNone = RNone"
| "deriv c REps = RNone"
| "deriv c (RClass P) = (if P c then REps else RNone)"
| "deriv c (RSeq r s) =
     (if nullable r then RAlt (RSeq (deriv c r) s) (deriv c s) else RSeq (deriv c r) s)"
| "deriv c (RAlt r s) = RAlt (deriv c r) (deriv c s)"
| "deriv c (RStar r) = RSeq (deriv c r) (RStar r)"
| "deriv c (RPlus r) = RSeq (deriv c r) (RStar r)"
| "deriv c (ROpt r) = deriv c r"
| "deriv c (RUpto n r) = (if n = 0 then RNone else RSeq (deriv c r) (RUpto (n - 1) r))"

definition regex_test :: "rexp \<Rightarrow> string \<Rightarrow> bool" where
  "regex_test r s = nullable (foldl (\<lambda>q c. deriv c q) r s)"

text \<open>
  The language of a regular expression, to state what the matcher decides:
  \<open>conc\<close> concatenates, \<open>pow A k\<close> is \<open>k\<close> words of \<open>A\<close> in a row, and
  \<open>rest_after c A\<close> holds what may follow a first \<open>c\<close> in \<open>A\<close>.
\<close>

definition conc :: "string set \<Rightarrow> string set \<Rightarrow> string set" where
  "conc A B = {xs @ ys | xs ys. xs \<in> A \<and> ys \<in> B}"

fun pow :: "string set \<Rightarrow> nat \<Rightarrow> string set" where
  "pow A 0 = {[]}"
| "pow A (Suc n) = conc A (pow A n)"

fun lang :: "rexp \<Rightarrow> string set" where
  "lang RNone = {}"
| "lang REps = {[]}"
| "lang (RClass P) = {[c] | c. P c}"
| "lang (RSeq r s) = conc (lang r) (lang s)"
| "lang (RAlt r s) = lang r \<union> lang s"
| "lang (RStar r) = (\<Union>k. pow (lang r) k)"
| "lang (RPlus r) = conc (lang r) (\<Union>k. pow (lang r) k)"
| "lang (ROpt r) = insert [] (lang r)"
| "lang (RUpto n r) = (\<Union>k \<in> {..n}. pow (lang r) k)"

definition rest_after :: "char \<Rightarrow> string set \<Rightarrow> string set" where
  "rest_after c A = {xs. c # xs \<in> A}"

text \<open>The character classes \<^verbatim>\<open>[a-zA-Z0-9]\<close>, \<^verbatim>\<open>[a-zA-Z0-9-]\<close> and the class of the local part.\<close>

definition alnum :: "char \<Rightarrow> bool" where
  "alnum c =
     (let n = (of_char c :: nat) in
      (97 \<le> n \<and> n \<le> 122) \<or> (65 \<le> n \<and> n \<le> 90) \<or> (48 \<le> n \<and> n \<le> 57))"

definition alnum_hyphen :: "char \<Rightarrow> bool" where
  "alnum_hyphen c = (alnum c \<or> c = CHR ''-'')"

definition local_char :: "char \<Rightarrow> bool" where
  \<open>local_char c = (alnum c \<or> c \<in> set ''.!#$%&'*+/=?^_`{|}~-'')\<close>

text \<open>\<^verbatim>\<open>[a-zA-Z0-9](?:[a-zA-Z0-9-]{0,61}[a-zA-Z0-9])?\<close>\<close>

definition domain_label :: rexp where
  "domain_label =
     RSeq (RClass alnum) (ROpt (RSeq (RUpto 61 (RClass alnum_hyphen)) (RClass alnum)))"

definition pattern :: rexp where
  "pattern =
     RSeq (RPlus (RClass local_char))
       (RSeq (RClass (\<lambda>c. c = CHR ''@''))
          (RSeq domain_label (RStar (RSeq (RClass (\<lambda>c. c = CHR ''.'')) domain_label))))"

definition isValidEmail :: "string \<Rightarrow> bool" where
  "isValidEmail email =
     (if length email > 254 \<or> length email < 3 then False
      else if \<exists>c \<in> set email. c = CHR 0x0D \<or> c = CHR 0x0A \<or> c = CHR 0x09 then False
      else regex_test pattern email)"

subsection \<open>Requests, responses and the services around the worker\<close>

text \<open>A header is \<open>None\<close> when \<^verbatim>\<open>request.headers.get\<close> returns null.\<close>

record request =
  request_method :: string
  header_Origin :: "string option"
  header_CF_Connecting_IP :: "string option"
  header_User_Agent :: "string option"
  body_text :: string

text \<open>
  The KV namespace: the stored string of a key and the \<^verbatim>\<open>expirationTtl\<close> it was
  written with. Expiry itself (time passing) is not modelled.
\<close>

type_synonym kv_namespace = "string \<rightharpoonup> (string \<times> nat)"

text \<open>A binding of the environment is \<open>None\<close> when it is not configured.\<close>

record env =
  TURNSTILE_SECRET_KEY :: "string option"
  AWS_ACCESS_KEY_ID :: "string option"
  AWS_SECRET_ACCESS_KEY :: "string option"
  AWS_REGION :: "string option"
  RATE_LIMITER :: "kv_namespace option"

record response =
  status :: nat
  headers :: "(string \<times> string) list"
  body :: "(string \<times> string) list option"

record ses_config =
  region :: string
  accessKeyId :: string
  secretAccessKey :: string

record send_email_params =
  Source :: string
  ToAddresses :: "string list"
  Subject :: string
  TextData :: string
  HtmlData :: string
  ReplyToAddresses :: "string list"

text \<open>
  What the siteverify call comes back with: the \<^verbatim>\<open>fetch\<close> throws, the response is
  not ok, its body is not JSON, or its body is the JSON value.
\<close>

datatype siteverify_reply = FetchThrows | NotOk | JsonThrows | Replied jsval

text \<open>
  The services the handler awaits, as the answers they give during one request:
  \<^verbatim>\<open>JSON.parse\<close> (\<open>None\<close> when it throws), whether the KV read and the KV write
  resolve, the siteverify endpoint as a function of the form it is sent, the clock
  (\<^verbatim>\<open>new Date().toISOString()\<close>) and whether the SES send resolves.
\<close>

record services =
  JSON_parse :: "string \<Rightarrow> jsval option"
  kv_get_resolves :: bool
  siteverify :: "(string \<times> string) list \<Rightarrow> siteverify_reply"
  toISOString_now :: string
  ses_send_resolves :: "ses_config \<Rightarrow> send_email_params \<Rightarrow> bool"
  kv_put_resolves :: bool

text \<open>The calls the handler makes, in the order it makes them.\<close>

datatype effect =
    KV_get string
  | Request_text
  | JSON_parse_of string
  | Siteverify "(string \<times> string) list"
  | SES_send ses_config send_email_params
  | KV_put string string nat

text \<open>
  What one run leaves behind: its result, the calls it made and the KV binding
  afterwards. Inside the try block the result is \<open>None\<close> when an exception was
  thrown.
\<close>

record 'r outcome =
  result :: 'r
  effects :: "effect list"
  store :: "kv_namespace option"

definition after_effects :: "effect list \<Rightarrow> 'r outcome \<Rightarrow> 'r outcome" where
  "after_effects es r = r\<lparr>effects := es @ effects r\<rparr>"

subsection \<open>Response helpers (lines 260 to 293)\<close>

definition buildCorsHeaders :: "string \<Rightarrow> (string \<times> string) list" where
  "buildCorsHeaders origin =
     [(''Access-Control-Allow-Methods'', ''POST, OPTIONS''),
      (''Access-Control-Allow-Headers'', ''Content-Type''),
      (''Access-Control-Max-Age'', ''86400''),
      (''Vary'', ''Origin'')]
     @ (if origin \<noteq> [] \<and> origin \<in> ALLOWED_ORIGINS
        then [(''Access-Control-Allow-Origin'', origin)] else [])"

definition buildSecurityHeaders :: "(string \<times> string) list" where
  \<open>buildSecurityHeaders =
     [(''X-Content-Type-Options'', ''nosniff''),
      (''X-Frame-Options'', ''DENY''),
      (''X-XSS-Protection'', ''1; mode=block''),
      (''Referrer-Policy'', ''strict-origin-when-cross-origin''),
      (''Content-Security-Policy'', ''default-src 'none'; frame-ancestors 'none';'')]\<close>

text \<open>
  \<^verbatim>\<open>json(obj, status, extraHeaders)\<close>. The body is \<^verbatim>\<open>JSON.stringify(obj)\<close>, kept as
  the object; no caller passes a Content-Type among the extra headers, so the
  spread is a concatenation.
\<close>

definition json :: "(string \<times> string) list \<Rightarrow> nat \<Rightarrow> (string \<times> string) list \<Rightarrow> response" where
  "json obj st extraHeaders =
     \<lparr>status = st,
      headers = (''Content-Type'', ''application/json; charset=utf-8'') # extraHeaders,
      body = Some obj\<rparr>"

subsection \<open>validateTurnstileToken (lines 306 to 331)\<close>

definition turnstile_form :: "string \<Rightarrow> string \<Rightarrow> string \<Rightarrow> (string \<times> string) list" where
  "turnstile_form token secretKey remoteip =
     [(''secret'', secretKey), (''response'', token)]
     @ (if remoteip \<noteq> [] \<and> remoteip \<noteq> ''unknown'' then [(''remoteip'', remoteip)] else [])"

definition validateTurnstileToken :: "services \<Rightarrow> string \<Rightarrow> string \<Rightarrow> string \<Rightarrow> jsval" where
  "validateTurnstileToken sv token secretKey remoteip =
     (case siteverify sv (turnstile_form token secretKey remoteip) of
        FetchThrows \<Rightarrow> JObj [(''success'', JBool False)]
      | NotOk \<Rightarrow> JObj [(''success'', JBool False)]
      | JsonThrows \<Rightarrow> JObj [(''success'', JBool False)]
      | Replied v \<Rightarrow> v)"

text \<open>\<^verbatim>\<open>ALLOWED_TURNSTILE_HOSTNAMES.has(v)\<close>: only a string can be a member.\<close>

definition hostname_allowed :: "jsval \<Rightarrow> bool" where
  "hostname_allowed v = (case v of JStr s \<Rightarrow> s \<in> ALLOWED_TURNSTILE_HOSTNAMES | _ \<Rightarrow> False)"

subsection \<open>The handler (lines 43 to 256)\<close>

text \<open>The message handed to SES (lines 189 to 229).\<close>

definition text_data :: "string \<Rightarrow> string \<Rightarrow> string \<Rightarrow> string \<Rightarrow> string \<Rightarrow> string \<Rightarrow> string" where
  \<open>text_data name email message now ip ua =
     ''New submission from: '' @ name @ ''\<newline>'' @
     ''Email: '' @ email @ ''\<newline>'' @
     ''Message: '' @ message @ ''\<newline>\<newline>'' @
     ''---\<newline>'' @
     ''Timestamp: '' @ now @ ''\<newline>'' @
     ''IP: '' @ ip @ ''\<newline>'' @
     ''User Agent: '' @ ua @ ''\<newline>''\<close>

definition html_data :: "string \<Rightarrow> string \<Rightarrow> string \<Rightarrow> string \<Rightarrow> string \<Rightarrow> string \<Rightarrow> string" where
  \<open>html_data name email message now ip ua =
     ''<h3>New Contact Submission</h3>'' @
     ''<p><strong>Name:</strong> '' @ escapeHtml name @ ''</p>'' @
     ''<p><strong>Email:</strong> '' @ escapeHtml email @ ''</p>'' @
     ''<p><strong>Message:</strong></p>'' @
     ''<pre style="white-space:pre-wrap;font-family:ui-monospace,Menlo,Consolas,monospace;padding:12px;background:#f6f8fa;border:1px solid #d0d7de;border-radius:6px;">'' @
     escapeHtml message @ ''</pre>'' @
     ''<hr style="margin:20px 0;border:none;border-top:1px solid #d0d7de;"/>'' @
     ''<p style="font-size:12px;color:#57606a;">'' @
     ''<strong>Timestamp:</strong> '' @ escapeHtml now @ ''<br/>'' @
     ''<strong>IP:</strong> '' @ escapeHtml ip @ ''<br/>'' @
     ''<strong>User Agent:</strong> '' @ escapeHtml ua @
     ''</p>''\<close>

definition params :: "string \<Rightarrow> string \<Rightarrow> string \<Rightarrow> string \<Rightarrow> string \<Rightarrow> string \<Rightarrow> send_email_params" where
  "params name email message now ip ua =
     \<lparr>Source = ''raduhrr@gmail.com'',
      ToAddresses = [''vladdulgher@yahoo.com''],
      Subject = ''New Contact Form Submission'',
      TextData = text_data name email message now ip ua,
      HtmlData = html_data name email message now ip ua,
      ReplyToAddresses = [''raduhhr@yahoo.com'']\<rparr>"

definition sesClient :: "env \<Rightarrow> ses_config" where
  "sesClient env =
     \<lparr>region = or_default (AWS_REGION env) ''eu-north-1'',
      accessKeyId = or_default (AWS_ACCESS_KEY_ID env) [],
      secretAccessKey = or_default (AWS_SECRET_ACCESS_KEY env) []\<rparr>"

text \<open>The key of the counter (line 84).\<close>

definition rateLimitKey :: "string \<Rightarrow> string" where
  "rateLimitKey ip = ''ratelimit:'' @ ip"

text \<open>\<^verbatim>\<open>submissionCount && parseInt(submissionCount) >= RATE_LIMIT_MAX\<close> (line 87).\<close>

definition over_limit :: "string option \<Rightarrow> bool" where
  "over_limit submissionCount =
     (case submissionCount of
        None \<Rightarrow> False
      | Some s \<Rightarrow> s \<noteq> [] \<and> (case parseInt s of None \<Rightarrow> False | Some n \<Rightarrow> n \<ge> RATE_LIMIT_MAX))"

text \<open>
  \<^verbatim>\<open>parseInt(submissionCount) || 0\<close> (line 234): the count read before, 0 when it is
  NaN; \<^verbatim>\<open>parseInt(null)\<close> reads the text of null, which is NaN.
\<close>

definition previous_count :: "string option \<Rightarrow> int" where
  "previous_count submissionCount =
     (case parseInt (case submissionCount of None \<Rightarrow> ''null'' | Some s \<Rightarrow> s) of
        None \<Rightarrow> 0
      | Some n \<Rightarrow> n)"

text \<open>
  Line 234 adds 1 to that number. The sum is the mathematical integer; JavaScript adds
  doubles, which is the same for counts below \<open>2^53\<close> in magnitude.
\<close>

definition newCount :: "string option \<Rightarrow> int" where
  "newCount submissionCount = previous_count submissionCount + 1"

text \<open>Lines 180 to 245: send the email, then count the submission.\<close>

definition send_and_count ::
  "services \<Rightarrow> env \<Rightarrow> request \<Rightarrow> (string \<times> string) list \<Rightarrow> kv_namespace \<Rightarrow> string \<Rightarrow>
   string option \<Rightarrow> string \<Rightarrow> string \<Rightarrow> string \<Rightarrow> response option outcome" where
  "send_and_count sv env request hdrs kv ip submissionCount name email message =
     (let now = toISOString_now sv;
          ua = or_default (header_User_Agent request) ''Unknown'';
          ps = params name email message now ip ua
      in
      if \<not> ses_send_resolves sv (sesClient env) ps
      then \<lparr>result = None, effects = [SES_send (sesClient env) ps], store = Some kv\<rparr>
      else
        let written = String (newCount submissionCount);
            calls = [SES_send (sesClient env) ps, KV_put (rateLimitKey ip) written RATE_LIMIT_WINDOW]
        in
        if \<not> kv_put_resolves sv
        then \<lparr>result = None, effects = calls, store = Some kv\<rparr>
        else
          \<lparr>result = Some (json [(''success'', ''Email sent successfully!'')] 200 hdrs),
           effects = calls,
           store = Some (kv(rateLimitKey ip \<mapsto> (written, RATE_LIMIT_WINDOW)))\<rparr>)"

text \<open>
  Lines 156 to 178: verify the token, then check the hostname it was issued for.
  \<open>reply c m\<close> is the early return of an error response.
\<close>

definition verify_and_send ::
  "services \<Rightarrow> env \<Rightarrow> request \<Rightarrow> (string \<times> string) list \<Rightarrow> kv_namespace \<Rightarrow> string \<Rightarrow>
   string option \<Rightarrow> string \<Rightarrow> string \<Rightarrow> string \<Rightarrow> string \<Rightarrow> response option outcome" where
  "verify_and_send sv env request hdrs kv ip submissionCount name email message turnstileToken =
     (let secret = or_default (TURNSTILE_SECRET_KEY env) [];
          turnstile = validateTurnstileToken sv turnstileToken secret ip;
          verify = [Siteverify (turnstile_form turnstileToken secret ip)];
          reply = (\<lambda>c m. \<lparr>result = Some (json [(''error'', m)] c hdrs), effects = verify,
                           store = Some kv\<rparr>)
      in
      if \<not> truthy (optional_field turnstile ''success'')
      then reply 400 ''Security verification failed''
      else
        case get_field turnstile ''hostname'' of
          None \<Rightarrow> \<lparr>result = None, effects = verify, store = Some kv\<rparr>
        | Some hostname \<Rightarrow>
            let verifiedHostname = (if truthy hostname then hostname else JStr []) in
            if \<not> hostname_allowed verifiedHostname
            then reply 400 ''Invalid verification context''
            else after_effects verify
                   (send_and_count sv env request hdrs kv ip submissionCount name email message))"

text \<open>Lines 122 to 154: the required fields check and the field validation.\<close>

definition validate_fields ::
  "services \<Rightarrow> env \<Rightarrow> request \<Rightarrow> (string \<times> string) list \<Rightarrow> kv_namespace \<Rightarrow> string \<Rightarrow>
   string option \<Rightarrow> string \<Rightarrow> string \<Rightarrow> string \<Rightarrow> string \<Rightarrow> response option outcome" where
  "validate_fields sv env request hdrs kv ip submissionCount name email message turnstileToken =
     (let reply = (\<lambda>c m. \<lparr>result = Some (json [(''error'', m)] c hdrs), effects = [],
                           store = Some kv\<rparr>)
      in
      if name = [] \<or> email = [] \<or> message = [] \<or> turnstileToken = []
      then reply 400 ''All fields are required''
      else if length name < 2 \<or> length name > 100
      then reply 400 ''Name must be between 2 and 100 characters''
      else if \<not> isValidEmail email
      then reply 400 ''Invalid email address''
      else if length message < 10 \<or> length message > 2000
      then reply 400 ''Message must be between 10 and 2000 characters''
      else verify_and_send sv env request hdrs kv ip submissionCount name email message
             turnstileToken)"

text \<open>
  Lines 116 to 120: extract and trim the four fields; a TypeError of any of them
  leaves the try block.
\<close>

definition process_payload ::
  "services \<Rightarrow> env \<Rightarrow> request \<Rightarrow> (string \<times> string) list \<Rightarrow> kv_namespace \<Rightarrow> string \<Rightarrow>
   string option \<Rightarrow> jsval \<Rightarrow> response option outcome" where
  "process_payload sv env request hdrs kv ip submissionCount payload =
     (let thrown = \<lparr>result = None, effects = [], store = Some kv\<rparr> in
      case trimmed_field payload ''name'' of None \<Rightarrow> thrown | Some name \<Rightarrow>
      case trimmed_field payload ''email'' of None \<Rightarrow> thrown | Some email \<Rightarrow>
      case trimmed_field payload ''message'' of None \<Rightarrow> thrown | Some message \<Rightarrow>
      case trimmed_field payload ''turnstileToken'' of None \<Rightarrow> thrown | Some turnstileToken \<Rightarrow>
        validate_fields sv env request hdrs kv ip submissionCount name email message
          turnstileToken)"

text \<open>
  Lines 75 to 114, the start of the try block: the environment checks, the rate
  limit, the body size guard and the JSON parse.
\<close>

definition try_block ::
  "services \<Rightarrow> env \<Rightarrow> request \<Rightarrow> (string \<times> string) list \<Rightarrow> response option outcome" where
  "try_block sv env request hdrs =
     (if or_default (TURNSTILE_SECRET_KEY env) [] = []
      then \<lparr>result = None, effects = [], store = RATE_LIMITER env\<rparr>
      else if or_default (AWS_ACCESS_KEY_ID env) [] = []
      then \<lparr>result = None, effects = [], store = RATE_LIMITER env\<rparr>
      else if or_default (AWS_SECRET_ACCESS_KEY env) [] = []
      then \<lparr>result = None, effects = [], store = RATE_LIMITER env\<rparr>
      else
        case RATE_LIMITER env of
          None \<Rightarrow> \<lparr>result = None, effects = [], store = None\<rparr>
        | Some kv \<Rightarrow>
            let ip = or_default (header_CF_Connecting_IP request) ''unknown'' in
            if \<not> kv_get_resolves sv
            then \<lparr>result = None, effects = [KV_get (rateLimitKey ip)], store = Some kv\<rparr>
            else
              let submissionCount = map_option fst (kv (rateLimitKey ip)) in
              if over_limit submissionCount
              then \<lparr>result = Some (json [(''error'', ''Rate limit exceeded. Please try again in an hour.'')]
                                   429 hdrs),
                    effects = [KV_get (rateLimitKey ip)], store = Some kv\<rparr>
              else
                let raw = body_text request in
                if length raw > MAX_BODY_BYTES
                then \<lparr>result = Some (json [(''error'', ''Payload too large'')] 413 hdrs),
                      effects = [KV_get (rateLimitKey ip), Request_text], store = Some kv\<rparr>
                else
                  case JSON_parse sv raw of
                    None \<Rightarrow>
                      \<lparr>result = Some (json [(''error'', ''Invalid JSON'')] 400 hdrs),
                       effects = [KV_get (rateLimitKey ip), Request_text, JSON_parse_of raw],
                       store = Some kv\<rparr>
                  | Some payload \<Rightarrow>
                      after_effects [KV_get (rateLimitKey ip), Request_text, JSON_parse_of raw]
                        (process_payload sv env request hdrs kv ip submissionCount payload))"

text \<open>
  The handler: the origin check, the preflight, the method check, and the try
  block with its catch, which answers every exception with the same 500.
\<close>

definition fetch :: "services \<Rightarrow> env \<Rightarrow> request \<Rightarrow> response outcome" where
  "fetch sv env request =
     (let origin = or_default (header_Origin request) [] in
      if origin \<noteq> [] \<and> origin \<notin> ALLOWED_ORIGINS
      then \<lparr>result = json [(''error'', ''Forbidden origin'')] 403 [], effects = [],
            store = RATE_LIMITER env\<rparr>
      else
        let corsHeaders = buildCorsHeaders origin;
            securityHeaders = buildSecurityHeaders
        in
        if request_method request = ''OPTIONS''
        then
          (if origin \<noteq> [] \<and> origin \<notin> ALLOWED_ORIGINS
           then \<lparr>result = \<lparr>status = 403, headers = [], body = None\<rparr>, effects = [],
                 store = RATE_LIMITER env\<rparr>
           else \<lparr>result = \<lparr>status = 204, headers = corsHeaders @ securityHeaders, body = None\<rparr>,
                 effects = [], store = RATE_LIMITER env\<rparr>)
        else if request_method request \<noteq> ''POST''
        then \<lparr>result = json [(''error'', ''Method Not Allowed'')] 405 (corsHeaders @ securityHeaders),
              effects = [], store = RATE_LIMITER env\<rparr>
        else
          let r = try_block sv env request (corsHeaders @ securityHeaders) in
          case result r of
            Some resp \<Rightarrow> \<lparr>result = resp, effects = effects r, store = store r\<rparr>
          | None \<Rightarrow>
              \<lparr>result = json [(''error'', ''Failed to send email. Please try again later.'')] 500
                          (corsHeaders @ securityHeaders),
               effects = effects r, store = store r\<rparr>)"

subsection \<open>Observing runs\<close>

text \<open>The email dispatches and the KV writes among the calls of a run.\<close>

definition is_send :: "effect \<Rightarrow> bool" where
  "is_send e = (case e of SES_send c p \<Rightarrow> True | _ \<Rightarrow> False)"

definition is_put :: "effect \<Rightarrow> bool" where
  "is_put e = (case e of KV_put k v t \<Rightarrow> True | _ \<Rightarrow> False)"

text \<open>A run is quiet when it dispatched no email and wrote nothing.\<close>

definition quiet :: "effect list \<Rightarrow> bool" where
  "quiet es = list_all (\<lambda>e. \<not> is_send e \<and> \<not> is_put e) es"

text \<open>
  The shape of every outcome of the try block: a response carries the handler's
  headers after its Content-Type, and a response other than the 200 is a 400, 413
  or 429 of a quiet run that left the store as it was.
\<close>

definition orderly ::
  "(string \<times> string) list \<Rightarrow> kv_namespace option \<Rightarrow> response option outcome \<Rightarrow> bool" where
  "orderly hdrs st out =
     (case result out of
        None \<Rightarrow> True
      | Some resp \<Rightarrow>
          headers resp = (''Content-Type'', ''application/json; charset=utf-8'') # hdrs \<and>
          (status resp = 200 \<or>
           status resp \<in> {400, 413, 429} \<and> quiet (effects out) \<and> store out = st))"

text \<open>
  The worker handles requests one after the other; the KV namespace a run leaves
  behind is the one the next run finds.
\<close>

fun serve :: "services \<Rightarrow> env \<Rightarrow> request list \<Rightarrow> response outcome list" where
  "serve sv env [] = []"
| "serve sv env (r # rs) =
     (let out = fetch sv env r in out # serve sv (env\<lparr>RATE_LIMITER := store out\<rparr>) rs)"

text \<open>
  \<^verbatim>\<open>request.text()\<close> decodes the body as UTF-8. A code unit below U+0080 was one
  byte of the body, a code unit from U+0080 to U+00FF two bytes.
\<close>

definition utf8_length :: "string \<Rightarrow> nat" where
  "utf8_length s = sum_list (map (\<lambda>c. if (of_char c :: nat) < 128 then 1 else 2) s)"

subsection \<open>A concrete submission\<close>

text \<open>
  One submission with every service answering: the form posts Jo's message from an
  allowed origin, the verifier confirms the token for raduhhr.xyz, SES and KV
  resolve, and no counter is stored yet.
\<close>

definition jo_body :: string where
  \<open>jo_body =
     ''{"name":"Jo","email":"jo@example.com","message":"Hello there, this works!","turnstileToken":"tok"}''\<close>

definition jo_payload :: jsval where
  "jo_payload =
     JObj [(''name'', JStr ''Jo''), (''email'', JStr ''jo@example.com''),
           (''message'', JStr ''Hello there, this works!''), (''turnstileToken'', JStr ''tok'')]"

definition jo_services :: services where
  "jo_services =
     \<lparr>JSON_parse = (\<lambda>s. if s = jo_body then Some jo_payload else None),
      kv_get_resolves = True,
      siteverify = (\<lambda>form. Replied (JObj [(''success'', JBool True), (''hostname'', JStr ''raduhhr.xyz'')])),
      toISOString_now = ''2025-01-01T12:00:00.000Z'',
      ses_send_resolves = (\<lambda>c p. True),
      kv_put_resolves = True\<rparr>"

definition jo_env :: env where
  "jo_env =
     \<lparr>TURNSTILE_SECRET_KEY = Some ''turnstile-secret'',
      AWS_ACCESS_KEY_ID = Some ''access-key-id'',
      AWS_SECRET_ACCESS_KEY = Some ''secret-access-key'',
      AWS_REGION = None,
      RATE_LIMITER = Some Map.empty\<rparr>"

definition jo_request :: request where
  "jo_request =
     \<lparr>request_method = ''POST'',
      header_Origin = Some ''https://raduhhr.xyz'',
      header_CF_Connecting_IP = Some ''203.0.113.7'',
      header_User_Agent = Some ''Mozilla/5.0'',
      body_text = jo_body\<rparr>"

text \<open>
  Variations of it: the services when the body \<open>text\<close> parses to \<open>payload\<close>, and
  the request that posts \<open>text\<close>.
\<close>

definition parsing :: "string \<Rightarrow> jsval \<Rightarrow> services" where
  "parsing text payload =
     jo_services\<lparr>JSON_parse := (\<lambda>s. if s = text then Some payload else None)\<rparr>"

definition posted :: "string \<Rightarrow> request" where
  "posted text = jo_request\<lparr>body_text := text\<rparr>"

text \<open>
  The JSON text the form sends for fields that need no escaping, and the value it
  parses to.
\<close>

definition form_body :: "string \<Rightarrow> string \<Rightarrow> string \<Rightarrow> string" where
  \<open>form_body name email message =
     ''{"name":"'' @ name @ ''","email":"'' @ email @ ''","message":"'' @ message @
     ''","turnstileToken":"tok"}''\<close>

definition form_payload :: "string \<Rightarrow> string \<Rightarrow> string \<Rightarrow> jsval" where
  "form_payload name email message =
     JObj [(''name'', JStr name), (''email'', JStr email), (''message'', JStr message),
           (''turnstileToken'', JStr ''tok'')]"

text \<open>
  A message with a script element, an ampersand, an apostrophe and double quotes,
  surrounded by white space, and the JSON text the form sends for it.
\<close>

definition markup_message :: string where
  \<open>markup_message = ''  <script>alert(1)</script> & it's "here"  ''\<close>

definition markup_body :: string where
  \<open>markup_body =
     ''{"name":"Jo","email":"jo@example.com","message":"  <script>alert(1)</script> & it's '' @
     [CHR 0x5C] @ ''"here'' @ [CHR 0x5C] @ ''"  ","turnstileToken":"tok"}''\<close>

text \<open>The same services, except that SES rejects the send.\<close>

definition send_rejected :: services where
  "send_rejected = jo_services\<lparr>ses_send_resolves := (\<lambda>c p. False)\<rparr>"

text \<open>The run of the handler on the posted \<open>text\<close>.\<close>

definition submit :: "string \<Rightarrow> jsval \<Rightarrow> response outcome" where
  "submit text payload = fetch (parsing text payload) jo_env (posted text)"

definition submit_form :: "string \<Rightarrow> string \<Rightarrow> string \<Rightarrow> response outcome" where
  "submit_form name email message =
     submit (form_body name email message) (form_payload name email message)"

section \<open>Properties\<close>

subsection \<open>The counter survives String and parseInt\<close>

declare decimal.simps [simp del]

lemma of_char_digit_char: "d < 10 \<Longrightarrow> (of_char (digit_char d) :: nat) = 48 + d"
  by (simp add: digit_char_def)

lemma digit_value_digit_char: "d < 10 \<Longrightarrow> digit_value (digit_char d) = Some d"
  by (simp add: digit_value_def of_char_digit_char)

lemma is_digit_digit_char: "d < 10 \<Longrightarrow> is_digit 10 (digit_char d)"
  by (simp add: is_digit_def digit_value_digit_char)

lemma digit_char_plain:
  assumes "d < 10"
  shows "\<not> js_whitespace (digit_char d)" "digit_char d \<noteq> CHR ''-''" "digit_char d \<noteq> CHR ''+''"
    "digit_char d \<noteq> CHR ''x''" "digit_char d \<noteq> CHR ''X''"
proof -
  have v: "(of_char (digit_char d) :: nat) = 48 + d"
    using assms by (rule of_char_digit_char)
  show "\<not> js_whitespace (digit_char d)"
    using assms by (simp add: js_whitespace_def v)
  show "digit_char d \<noteq> CHR ''-''" using v by auto
  show "digit_char d \<noteq> CHR ''+''" using v by auto
  show "digit_char d \<noteq> CHR ''x''" using v assms by auto
  show "digit_char d \<noteq> CHR ''X''" using v assms by auto
qed

lemma decimal_all_digits: "c \<in> set (decimal n) \<Longrightarrow> \<exists>d<10. c = digit_char d"
proof (induction n rule: decimal.induct)
  case (1 n)
  show ?case
  proof (cases "n < 10")
    case True
    with "1.prems" show ?thesis
      by (auto simp: decimal.simps [of n])
  next
    case False
    with "1.prems" have "c \<in> set (decimal (n div 10)) \<or> c = digit_char (n mod 10)"
      by (auto simp: decimal.simps [of n])
    then show ?thesis
    proof
      assume "c \<in> set (decimal (n div 10))"
      with "1.IH" False show ?thesis by blast
    next
      assume "c = digit_char (n mod 10)"
      moreover have "n mod 10 < 10" by simp
      ultimately show ?thesis by blast
    qed
  qed
qed

lemma decimal_not_Nil: "decimal n \<noteq> []"
  by (subst decimal.simps) simp

lemma digits_value_snoc:
  "digits_value r (z @ [c]) =
     digits_value r z * r + (case digit_value c of None \<Rightarrow> 0 | Some d \<Rightarrow> d)"
  by (simp add: digits_value_def)

lemma digits_value_decimal: "digits_value 10 (decimal n) = n"
proof (induction n rule: decimal.induct)
  case (1 n)
  show ?case
  proof (cases "n < 10")
    case True
    then show ?thesis
      by (simp add: decimal.simps [of n] digits_value_def digit_value_digit_char)
  next
    case False
    with "1.IH" have "digits_value 10 (decimal (n div 10)) = n div 10" by simp
    with False show ?thesis
      by (simp add: decimal.simps [of n] digits_value_snoc digit_value_digit_char)
  qed
qed

lemma parseInt_digits:
  assumes all: "\<And>x. x \<in> set (c # r) \<Longrightarrow> \<exists>d<10. x = digit_char d"
  shows "parseInt (c # r) = Some (int (digits_value 10 (c # r)))"
proof -
  from all [of c] obtain d where d: "d < 10" "c = digit_char d" by auto
  note plain = digit_char_plain [OF d(1), folded d(2)]
  have nohex:
    "\<not> (case r of [] \<Rightarrow> False | e # r' \<Rightarrow> c = CHR ''0'' \<and> (e = CHR ''x'' \<or> e = CHR ''X''))"
  proof (cases r)
    case Nil
    then show ?thesis by simp
  next
    case (Cons e r')
    with all [of e] obtain d' where "d' < 10" "e = digit_char d'" by auto
    with Cons show ?thesis using digit_char_plain(4,5) by auto
  qed
  have dc: "is_digit 10 c"
    using d is_digit_digit_char by simp
  have tw: "takeWhile (is_digit 10) r = r"
    using all is_digit_digit_char by (fastforce simp: takeWhile_eq_all_conv)
  show ?thesis
    using plain nohex dc by (simp add: parseInt_def Let_def tw)
qed

lemma parseInt_decimal: "parseInt (decimal n) = Some (int n)"
proof -
  obtain c r where cr: "decimal n = c # r"
    using decimal_not_Nil [of n] by (cases "decimal n") auto
  have "parseInt (c # r) = Some (int (digits_value 10 (c # r)))"
    by (rule parseInt_digits) (use decimal_all_digits [of _ n] cr in auto)
  then show ?thesis
    using digits_value_decimal [of n] by (simp add: cr)
qed

lemma parseInt_String: "0 \<le> n \<Longrightarrow> parseInt (String n) = Some n"
  using parseInt_decimal [of "nat n"] by (simp add: String_def)

lemma parseInt_null: "parseInt ''null'' = None"
  by (simp add: parseInt_def Let_def js_whitespace_def is_digit_def digit_value_def)

lemma parseInt_Nil: "parseInt [] = None"
  by (simp add: parseInt_def)

lemma over_limit_iff: "over_limit sc \<longleftrightarrow> previous_count sc \<ge> 5"
  by (auto simp: over_limit_def previous_count_def RATE_LIMIT_MAX_def parseInt_null parseInt_Nil
      split: option.splits)

lemma previous_count_None: "previous_count None = 0"
  by (simp add: previous_count_def parseInt_null)

lemma previous_count_String: "0 \<le> n \<Longrightarrow> previous_count (Some (String n)) = n"
  by (simp add: previous_count_def parseInt_String)

subsection \<open>escapeHtml leaves no markup character\<close>

lemma escapeHtml_Nil: "escapeHtml [] = []"
  by (simp add: escapeHtml_def)

lemma escapeHtml_Cons:
  "escapeHtml (c # s) = (if html_special c then replacement c else [c]) @ escapeHtml s"
  by (simp add: escapeHtml_def)

lemma escapeHtml_append: "escapeHtml (a @ b) = escapeHtml a @ escapeHtml b"
  by (simp add: escapeHtml_def)

lemma replacement_entity:
  assumes "html_special c"
  shows "replacement c \<in> set (map snd entity_map)"
    and "replacement c \<noteq> []"
    and "i < length (replacement c) \<Longrightarrow> replacement c ! i = CHR ''&'' \<Longrightarrow> i = 0"
    and "x \<in> set (replacement c) \<Longrightarrow> \<not> html_special x \<or> x = CHR ''&''"
  using assms
  by (auto simp: html_special_def replacement_def entity_map_def nth_Cons' split: if_splits)

lemma escapeHtml_no_markup:
  "x \<in> set (escapeHtml s) \<Longrightarrow> \<not> html_special x \<or> x = CHR ''&''"
proof (induction s)
  case Nil
  then show ?case by (simp add: escapeHtml_Nil)
next
  case (Cons c s)
  then show ?case
    using replacement_entity(4) [of c x] by (auto simp: escapeHtml_Cons split: if_splits)
qed

lemma amp_starts_entity:
  "i < length (escapeHtml s) \<Longrightarrow> escapeHtml s ! i = CHR ''&'' \<Longrightarrow>
   \<exists>e \<in> set (map snd entity_map). prefix e (drop i (escapeHtml s))"
proof (induction s arbitrary: i)
  case Nil
  then show ?case by (simp add: escapeHtml_Nil)
next
  case (Cons c s)
  define h where "h = (if html_special c then replacement c else [c])"
  have eq: "escapeHtml (c # s) = h @ escapeHtml s"
    by (simp add: escapeHtml_Cons h_def)
  show ?case
  proof (cases "i < length h")
    case True
    with Cons.prems(2) have amp: "h ! i = CHR ''&''"
      by (simp add: eq nth_append)
    have sp: "html_special c"
    proof (rule ccontr)
      assume "\<not> html_special c"
      with True amp show False by (auto simp: h_def html_special_def)
    qed
    then have h: "h = replacement c" by (simp add: h_def)
    from replacement_entity(3) [OF sp] True amp have "i = 0" by (simp add: h)
    moreover have "h \<in> set (map snd entity_map)"
      using replacement_entity(1) [OF sp] by (simp add: h)
    ultimately show ?thesis
      by (intro bexI [of _ h]) (simp_all add: eq)
  next
    case False
    then have "i - length h < length (escapeHtml s)" "escapeHtml s ! (i - length h) = CHR ''&''"
      using Cons.prems by (auto simp: eq nth_append)
    from Cons.IH [OF this] show ?thesis
      using False by (simp add: eq)
  qed
qed

text \<open>
  C9. For every string \<open>s\<close>, \<open>escapeHtml s\<close> contains none of the characters
  \<^verbatim>\<open><\<close>, \<^verbatim>\<open>>\<close>, double quote and single quote, and wherever it contains \<^verbatim>\<open>&\<close>, one
  of the five entities starts there.
\<close>

theorem escapeHtml_output_safe:
  "(\<forall>x \<in> set (escapeHtml s). x \<notin> {CHR ''<'', CHR ''>'', CHR 0x22, CHR 0x27}) \<and>
   (\<forall>i < length (escapeHtml s). escapeHtml s ! i = CHR ''&'' \<longrightarrow>
      (\<exists>e \<in> {''&amp;'', ''&lt;'', ''&gt;'', ''&quot;'', ''&#39;''}. prefix e (drop i (escapeHtml s))))"
proof (intro conjI ballI allI impI)
  fix x assume "x \<in> set (escapeHtml s)"
  from escapeHtml_no_markup [OF this] show "x \<notin> {CHR ''<'', CHR ''>'', CHR 0x22, CHR 0x27}"
    by (auto simp: html_special_def)
next
  fix i assume "i < length (escapeHtml s)" "escapeHtml s ! i = CHR ''&''"
  from amp_starts_entity [OF this]
  show "\<exists>e \<in> {''&amp;'', ''&lt;'', ''&gt;'', ''&quot;'', ''&#39;''}. prefix e (drop i (escapeHtml s))"
    by (simp add: entity_map_def)
qed

theorem escapeHtml_output_safe_witness:
  \<open>escapeHtml ''a<b & "c"'' = ''a&lt;b &amp; &quot;c&quot;'' \<and>
   CHR ''<'' \<notin> set (escapeHtml ''a<b & "c"'') \<and>
   CHR 0x22 \<notin> set (escapeHtml ''a<b & "c"'') \<and>
   escapeHtml ''a<b & "c"'' ! 7 = CHR ''&'' \<and>
   (\<exists>e \<in> {''&amp;'', ''&lt;'', ''&gt;'', ''&quot;'', ''&#39;''}.
      prefix e (drop 7 (escapeHtml ''a<b & "c"'')))\<close>
proof -
  let ?s = \<open>''a<b & "c"''\<close>
  have e: \<open>escapeHtml ?s = ''a&lt;b &amp; &quot;c&quot;''\<close>
    by (simp add: escapeHtml_def html_special_def replacement_def entity_map_def)
  have i: "7 < length (escapeHtml ?s)" "escapeHtml ?s ! 7 = CHR ''&''"
    by (simp_all add: e)
  from escapeHtml_output_safe [of ?s] i
  have "CHR ''<'' \<notin> set (escapeHtml ?s)" "CHR 0x22 \<notin> set (escapeHtml ?s)"
    "\<exists>e \<in> {''&amp;'', ''&lt;'', ''&gt;'', ''&quot;'', ''&#39;''}. prefix e (drop 7 (escapeHtml ?s))"
    by blast+
  with e i(2) show ?thesis by blast
qed

subsection \<open>Stage by stage\<close>

lemma hostname_allowed_or_empty:
  "hostname_allowed (if truthy h then h else JStr []) = hostname_allowed h"
  by (cases h) (auto simp: hostname_allowed_def ALLOWED_TURNSTILE_HOSTNAMES_def)

lemma get_field_None: "get_field v k = None \<longleftrightarrow> v = JUndefined \<or> v = JNull"
  by (cases v) simp_all

lemma optional_field_get: "get_field v k = Some x \<Longrightarrow> optional_field v k = x"
  by (simp add: optional_field_def)

lemma fetch_forbidden:
  assumes "or_default (header_Origin req) [] \<noteq> []"
    and "or_default (header_Origin req) [] \<notin> ALLOWED_ORIGINS"
  shows "fetch sv env req =
     \<lparr>result = json [(''error'', ''Forbidden origin'')] 403 [], effects = [],
      store = RATE_LIMITER env\<rparr>"
  using assms by (simp add: fetch_def Let_def)

lemma fetch_not_post:
  assumes "or_default (header_Origin req) [] = [] \<or> or_default (header_Origin req) [] \<in> ALLOWED_ORIGINS"
    and "request_method req \<noteq> ''POST''"
  shows "fetch sv env req =
     (let hdrs = buildCorsHeaders (or_default (header_Origin req) []) @ buildSecurityHeaders in
      \<lparr>result =
         (if request_method req = ''OPTIONS'' then \<lparr>status = 204, headers = hdrs, body = None\<rparr>
          else json [(''error'', ''Method Not Allowed'')] 405 hdrs),
       effects = [], store = RATE_LIMITER env\<rparr>)"
  using assms by (auto simp: fetch_def Let_def)

lemma fetch_post:
  assumes "or_default (header_Origin req) [] = [] \<or> or_default (header_Origin req) [] \<in> ALLOWED_ORIGINS"
    and "request_method req = ''POST''"
  shows "fetch sv env req =
      (let hdrs = buildCorsHeaders (or_default (header_Origin req) []) @ buildSecurityHeaders;
           r = try_block sv env req hdrs in
       \<lparr>result = (case result r of Some resp \<Rightarrow> resp
           | None \<Rightarrow> json [(''error'', ''Failed to send email. Please try again later.'')] 500 hdrs),
        effects = effects r, store = store r\<rparr>)"
  using assms by (auto simp: fetch_def Let_def split: option.splits)

lemma try_block_proceeds:
  assumes "or_default (TURNSTILE_SECRET_KEY env) [] \<noteq> []"
    and "or_default (AWS_ACCESS_KEY_ID env) [] \<noteq> []"
    and "or_default (AWS_SECRET_ACCESS_KEY env) [] \<noteq> []"
    and "RATE_LIMITER env = Some kv"
    and "kv_get_resolves sv"
    and "\<not> over_limit (map_option fst (kv (rateLimitKey (or_default (header_CF_Connecting_IP req) ''unknown''))))"
    and "length (body_text req) \<le> MAX_BODY_BYTES"
    and "JSON_parse sv (body_text req) = Some payload"
  shows "try_block sv env req hdrs =
      (let ip = or_default (header_CF_Connecting_IP req) ''unknown'' in
       after_effects [KV_get (rateLimitKey ip), Request_text, JSON_parse_of (body_text req)]
        (process_payload sv env req hdrs kv ip (map_option fst (kv (rateLimitKey ip))) payload))"
  using assms by (simp add: try_block_def Let_def)

lemma process_payload_fields:
  assumes "trimmed_field payload ''name'' = Some name"
    and "trimmed_field payload ''email'' = Some email"
    and "trimmed_field payload ''message'' = Some message"
    and "trimmed_field payload ''turnstileToken'' = Some token"
  shows "process_payload sv env req hdrs kv ip sc payload =
           validate_fields sv env req hdrs kv ip sc name email message token"
  using assms by (simp add: process_payload_def)

lemma validate_fields_passes:
  assumes "2 \<le> length name" "length name \<le> 100" "isValidEmail email"
    and "10 \<le> length message" "length message \<le> 2000" "token \<noteq> []"
  shows "validate_fields sv env req hdrs kv ip sc name email message token =
           verify_and_send sv env req hdrs kv ip sc name email message token"
proof -
  have "name \<noteq> []" "email \<noteq> []" "message \<noteq> []"
    using assms by (auto simp: isValidEmail_def)
  with assms show ?thesis by (simp add: validate_fields_def)
qed

lemma verify_and_send_passes:
  assumes "siteverify sv (turnstile_form token (or_default (TURNSTILE_SECRET_KEY env) []) ip) = Replied v"
    and "truthy (optional_field v ''success'')"
    and "hostname_allowed (optional_field v ''hostname'')"
  shows "verify_and_send sv env req hdrs kv ip sc name email message token =
      after_effects [Siteverify (turnstile_form token (or_default (TURNSTILE_SECRET_KEY env) []) ip)]
        (send_and_count sv env req hdrs kv ip sc name email message)"
proof -
  have v: "validateTurnstileToken sv token (or_default (TURNSTILE_SECRET_KEY env) []) ip = v"
    using assms(1) by (simp add: validateTurnstileToken_def)
  obtain h where h: "get_field v ''hostname'' = Some h" "hostname_allowed h"
    using assms(2,3) by (cases v) (auto simp: optional_field_def hostname_allowed_def)
  show ?thesis
    using assms h by (simp add: verify_and_send_def Let_def v hostname_allowed_or_empty)
qed

subsection \<open>Every outcome is orderly\<close>

lemma orderly_thrown: "orderly hdrs st \<lparr>result = None, effects = es, store = st'\<rparr>"
  by (simp add: orderly_def)

lemma orderly_reply:
  "orderly hdrs st \<lparr>result = Some (json obj c hdrs), effects = es, store = st'\<rparr> \<longleftrightarrow>
     c = 200 \<or> c \<in> {400, 413, 429} \<and> quiet es \<and> st' = st"
  by (simp add: orderly_def json_def)

lemma quiet_simps:
  "quiet []" "quiet (KV_get k # es) = quiet es" "quiet (Request_text # es) = quiet es"
  "quiet (JSON_parse_of s # es) = quiet es" "quiet (Siteverify f # es) = quiet es"
  "\<not> quiet (SES_send c p # es)" "\<not> quiet (KV_put k v t # es)"
  by (simp_all add: quiet_def is_send_def is_put_def)

lemma orderly_after:
  "quiet es \<Longrightarrow> orderly hdrs st (after_effects es out) = orderly hdrs st out"
  by (cases out) (simp add: orderly_def after_effects_def quiet_def split: option.splits)

lemma send_and_count_orderly:
  "orderly hdrs st (send_and_count sv env req hdrs kv ip sc name email message)"
  by (simp add: send_and_count_def Let_def orderly_thrown orderly_reply)

lemma verify_and_send_orderly:
  "orderly hdrs (Some kv) (verify_and_send sv env req hdrs kv ip sc name email message token)"
  by (simp add: verify_and_send_def Let_def orderly_thrown orderly_reply orderly_after quiet_simps
      send_and_count_orderly split: option.split)

lemma validate_fields_orderly:
  "orderly hdrs (Some kv) (validate_fields sv env req hdrs kv ip sc name email message token)"
  by (simp add: validate_fields_def Let_def orderly_reply quiet_simps verify_and_send_orderly)

lemma process_payload_orderly:
  "orderly hdrs (Some kv) (process_payload sv env req hdrs kv ip sc payload)"
  by (simp add: process_payload_def Let_def orderly_thrown validate_fields_orderly
      split: option.split)

lemma try_block_orderly:
  "orderly hdrs (RATE_LIMITER env) (try_block sv env req hdrs)"
  by (simp add: try_block_def Let_def orderly_thrown orderly_reply orderly_after quiet_simps
      process_payload_orderly split: option.split)

subsection \<open>Where the verifier is called\<close>

lemma siteverify_in_send_and_count:
  "Siteverify form \<notin> set (effects (send_and_count sv env req hdrs kv ip sc name email message))"
  by (simp add: send_and_count_def Let_def)

lemma siteverify_in_verify_and_send:
  "Siteverify form \<in> set (effects (verify_and_send sv env req hdrs kv ip sc name email message token))
     \<longleftrightarrow> form = turnstile_form token (or_default (TURNSTILE_SECRET_KEY env) []) ip"
  by (auto simp: verify_and_send_def Let_def after_effects_def siteverify_in_send_and_count
      split: option.splits)

lemma siteverify_in_validate_fields:
  assumes "Siteverify form \<in> set (effects (validate_fields sv env req hdrs kv ip sc name email message token))"
  shows "validate_fields sv env req hdrs kv ip sc name email message token =
           verify_and_send sv env req hdrs kv ip sc name email message token"
  using assms by (auto simp: validate_fields_def Let_def split: if_splits)

lemma siteverify_in_process_payload:
  assumes "Siteverify form \<in> set (effects (process_payload sv env req hdrs kv ip sc payload))"
  shows "\<exists>name email message token.
           process_payload sv env req hdrs kv ip sc payload =
             verify_and_send sv env req hdrs kv ip sc name email message token"
proof -
  from assms obtain name email message token where
    f: "trimmed_field payload ''name'' = Some name" "trimmed_field payload ''email'' = Some email"
       "trimmed_field payload ''message'' = Some message"
       "trimmed_field payload ''turnstileToken'' = Some token"
    by (auto simp: process_payload_def Let_def split: option.splits)
  note pp = process_payload_fields [OF f, of sv env req hdrs kv ip sc]
  from assms have "validate_fields sv env req hdrs kv ip sc name email message token =
      verify_and_send sv env req hdrs kv ip sc name email message token"
    unfolding pp by (rule siteverify_in_validate_fields)
  with pp show ?thesis by auto
qed

lemma siteverify_in_try_block:
  assumes "Siteverify form \<in> set (effects (try_block sv env req hdrs))"
  shows "\<exists>kv payload es.
           quiet es \<and> RATE_LIMITER env = Some kv \<and>
           Siteverify form \<in> set (effects (process_payload sv env req hdrs kv
              (or_default (header_CF_Connecting_IP req) ''unknown'')
              (map_option fst (kv (rateLimitKey (or_default (header_CF_Connecting_IP req) ''unknown''))))
              payload)) \<and>
           try_block sv env req hdrs =
             after_effects es (process_payload sv env req hdrs kv
              (or_default (header_CF_Connecting_IP req) ''unknown'')
              (map_option fst (kv (rateLimitKey (or_default (header_CF_Connecting_IP req) ''unknown''))))
              payload)"
  using assms
  apply (simp add: try_block_def Let_def split: if_splits option.splits)
  apply (auto simp: after_effects_def quiet_simps intro!: exI [of _ "[KV_get _, Request_text, JSON_parse_of _]"])
  done

lemma String_small:
  "String 0 = ''0''" "String 1 = ''1''" "String 2 = ''2''" "String 3 = ''3''"
  "String 4 = ''4''" "String 5 = ''5''" "String 6 = ''6''"
  by code_simp+

text \<open>What a valid submission leaves behind, in full.\<close>

lemma accepted_submission:
  assumes origin: "or_default (header_Origin req) [] = [] \<or> or_default (header_Origin req) [] \<in> ALLOWED_ORIGINS"
    and post: "request_method req = ''POST''"
    and env: "or_default (TURNSTILE_SECRET_KEY env) [] \<noteq> []" "or_default (AWS_ACCESS_KEY_ID env) [] \<noteq> []"
      "or_default (AWS_SECRET_ACCESS_KEY env) [] \<noteq> []" "RATE_LIMITER env = Some kv"
    and get: "kv_get_resolves sv"
    and count: "previous_count (map_option fst (kv (rateLimitKey (or_default (header_CF_Connecting_IP req) ''unknown'')))) < 5"
    and size: "length (body_text req) \<le> MAX_BODY_BYTES"
    and parse: "JSON_parse sv (body_text req) = Some payload"
    and fields: "trimmed_field payload ''name'' = Some name" "trimmed_field payload ''email'' = Some email"
      "trimmed_field payload ''message'' = Some message" "trimmed_field payload ''turnstileToken'' = Some token"
    and valid: "2 \<le> length name" "length name \<le> 100" "isValidEmail email"
      "10 \<le> length message" "length message \<le> 2000" "token \<noteq> []"
    and verified:
      "siteverify sv (turnstile_form token (or_default (TURNSTILE_SECRET_KEY env) [])
         (or_default (header_CF_Connecting_IP req) ''unknown'')) = Replied v"
      "truthy (optional_field v ''success'')" "hostname_allowed (optional_field v ''hostname'')"
  shows "fetch sv env req =
     (let hdrs = buildCorsHeaders (or_default (header_Origin req) []) @ buildSecurityHeaders;
          ip = or_default (header_CF_Connecting_IP req) ''unknown'';
          ps = params name email message (toISOString_now sv) ip
                 (or_default (header_User_Agent req) ''Unknown'');
          sent = ses_send_resolves sv (sesClient env) ps;
          written = String (previous_count (map_option fst (kv (rateLimitKey ip))) + 1)
      in
      \<lparr>result =
         (if sent \<and> kv_put_resolves sv
          then json [(''success'', ''Email sent successfully!'')] 200 hdrs
          else json [(''error'', ''Failed to send email. Please try again later.'')] 500 hdrs),
       effects =
         [KV_get (rateLimitKey ip), Request_text, JSON_parse_of (body_text req),
          Siteverify (turnstile_form token (or_default (TURNSTILE_SECRET_KEY env) []) ip),
          SES_send (sesClient env) ps]
         @ (if sent then [KV_put (rateLimitKey ip) written RATE_LIMIT_WINDOW] else []),
       store =
         Some (if sent \<and> kv_put_resolves sv
               then kv(rateLimitKey ip \<mapsto> (written, RATE_LIMIT_WINDOW)) else kv)\<rparr>)"
proof -
  have nl: "\<not> over_limit (map_option fst (kv (rateLimitKey (or_default (header_CF_Connecting_IP req) ''unknown''))))"
    using count by (simp add: over_limit_iff)
  note f = fetch_post [OF origin post]
  note tb = try_block_proceeds [OF env get nl size parse]
  note pp = process_payload_fields [OF fields]
  note vf = validate_fields_passes [OF valid]
  note vs = verify_and_send_passes [OF verified]
  show ?thesis
    unfolding f tb Let_def pp vf vs
    by (simp add: send_and_count_def after_effects_def Let_def newCount_def)
qed

lemma jo_setting:
  "or_default (header_Origin jo_request) [] = ''https://raduhhr.xyz''"
  "or_default (header_CF_Connecting_IP jo_request) ''unknown'' = ''203.0.113.7''"
  "or_default (header_User_Agent jo_request) ''Unknown'' = ''Mozilla/5.0''"
  "or_default (TURNSTILE_SECRET_KEY jo_env) [] = ''turnstile-secret''"
  "or_default (AWS_ACCESS_KEY_ID jo_env) [] = ''access-key-id''"
  "or_default (AWS_SECRET_ACCESS_KEY jo_env) [] = ''secret-access-key''"
  "RATE_LIMITER jo_env = Some Map.empty"
  "request_method jo_request = ''POST''"
  "body_text jo_request = jo_body"
  "JSON_parse jo_services jo_body = Some jo_payload"
  "kv_get_resolves jo_services" "kv_put_resolves jo_services"
  "ses_send_resolves jo_services c p"
  "siteverify jo_services form =
     Replied (JObj [(''success'', JBool True), (''hostname'', JStr ''raduhhr.xyz'')])"
  "toISOString_now jo_services = ''2025-01-01T12:00:00.000Z''"
  "length jo_body = 98"
  by (simp_all add: jo_request_def jo_env_def jo_services_def or_default_def jo_body_def)

lemma jo_fields:
  "trimmed_field jo_payload ''name'' = Some ''Jo''"
  "trimmed_field jo_payload ''email'' = Some ''jo@example.com''"
  "trimmed_field jo_payload ''message'' = Some ''Hello there, this works!''"
  "trimmed_field jo_payload ''turnstileToken'' = Some ''tok''"
  by (simp_all add: jo_payload_def trimmed_field_def trim_def js_whitespace_def)

lemma jo_email: "isValidEmail ''jo@example.com''"
  by (simp add: isValidEmail_def regex_test_def pattern_def domain_label_def alnum_def
      alnum_hyphen_def local_char_def)

text \<open>
  C1, as amended. A valid submission: a POST from an absent or allow-listed origin to
  a configured worker, with a stored count from 0 to 4 for the client IP, a body of at
  most 10000 code units that parses, four fields that pass their checks, and a token
  the verifier confirms for an allow-listed hostname. The handler then dispatches
  exactly one email. When the send resolves it writes to the KV store exactly once,
  after the send: the count read before plus 1, with the window of 3600 seconds as
  its expiration. When the send rejects it writes nothing and answers 500.
\<close>

theorem valid_submission_one_dispatch_one_write:
  fixes sv :: services and env :: env and req :: request and kv :: kv_namespace
  defines "origin \<equiv> or_default (header_Origin req) []"
  defines "ip \<equiv> or_default (header_CF_Connecting_IP req) ''unknown''"
  defines "secret \<equiv> or_default (TURNSTILE_SECRET_KEY env) []"
  defines "count \<equiv> previous_count (map_option fst (kv (rateLimitKey ip)))"
  assumes origin: "origin = [] \<or> origin \<in> ALLOWED_ORIGINS"
    and post: "request_method req = ''POST''"
    and env: "secret \<noteq> []" "or_default (AWS_ACCESS_KEY_ID env) [] \<noteq> []"
      "or_default (AWS_SECRET_ACCESS_KEY env) [] \<noteq> []" "RATE_LIMITER env = Some kv"
    and get: "kv_get_resolves sv"
    and count: "0 \<le> count" "count < 5"
    and size: "length (body_text req) \<le> MAX_BODY_BYTES"
    and parse: "JSON_parse sv (body_text req) = Some payload"
    and fields: "trimmed_field payload ''name'' = Some name"
      "trimmed_field payload ''email'' = Some email"
      "trimmed_field payload ''message'' = Some message"
      "trimmed_field payload ''turnstileToken'' = Some token"
    and valid: "2 \<le> length name" "length name \<le> 100" "isValidEmail email"
      "10 \<le> length message" "length message \<le> 2000" "token \<noteq> []"
    and verified: "siteverify sv (turnstile_form token secret ip) = Replied v"
      "truthy (optional_field v ''success'')" "hostname_allowed (optional_field v ''hostname'')"
  defines "ps \<equiv> params name email message (toISOString_now sv) ip
                  (or_default (header_User_Agent req) ''Unknown'')"
  defines "sent \<equiv> ses_send_resolves sv (sesClient env) ps"
  defines "put \<equiv> KV_put (rateLimitKey ip) (String (count + 1)) RATE_LIMIT_WINDOW"
  shows "effects (fetch sv env req) =
           [KV_get (rateLimitKey ip), Request_text, JSON_parse_of (body_text req),
            Siteverify (turnstile_form token secret ip), SES_send (sesClient env) ps]
           @ (if sent then [put] else []) \<and>
         length (filter is_send (effects (fetch sv env req))) = 1 \<and>
         filter is_put (effects (fetch sv env req)) = (if sent then [put] else []) \<and>
         RATE_LIMIT_WINDOW = 3600 \<and>
         store (fetch sv env req) =
           Some (if sent \<and> kv_put_resolves sv
                 then kv(rateLimitKey ip \<mapsto> (String (count + 1), RATE_LIMIT_WINDOW)) else kv) \<and>
         status (result (fetch sv env req)) = (if sent \<and> kv_put_resolves sv then 200 else 500)"
proof -
  note run = accepted_submission [OF origin [unfolded origin_def] post env [unfolded secret_def] get
      count(2) [unfolded count_def ip_def] size parse fields valid
      verified [unfolded secret_def ip_def]]
  show ?thesis
    unfolding run Let_def origin_def ip_def secret_def count_def ps_def sent_def put_def
    by (simp add: is_send_def is_put_def json_def RATE_LIMIT_WINDOW_def)
qed

text \<open>Jo's submission: one send, then the counter is written as 1.\<close>

theorem valid_submission_one_dispatch_one_write_witness:
  "effects (fetch jo_services jo_env jo_request) =
     [KV_get ''ratelimit:203.0.113.7'', Request_text, JSON_parse_of jo_body,
      Siteverify [(''secret'', ''turnstile-secret''), (''response'', ''tok''),
                  (''remoteip'', ''203.0.113.7'')],
      SES_send (sesClient jo_env)
        (params ''Jo'' ''jo@example.com'' ''Hello there, this works!''
           ''2025-01-01T12:00:00.000Z'' ''203.0.113.7'' ''Mozilla/5.0''),
      KV_put ''ratelimit:203.0.113.7'' ''1'' 3600] \<and>
   length (filter is_send (effects (fetch jo_services jo_env jo_request))) = 1 \<and>
   store (fetch jo_services jo_env jo_request) =
     Some [''ratelimit:203.0.113.7'' \<mapsto> (''1'', 3600)] \<and>
   status (result (fetch jo_services jo_env jo_request)) = 200"
  using valid_submission_one_dispatch_one_write
    [of jo_request jo_env Map.empty jo_services jo_payload "''Jo''" "''jo@example.com''"
      "''Hello there, this works!''" "''tok''"
      "JObj [(''success'', JBool True), (''hostname'', JStr ''raduhhr.xyz'')]"]
  by (simp add: jo_setting jo_fields jo_email ALLOWED_ORIGINS_def MAX_BODY_BYTES_def
      previous_count_None String_small rateLimitKey_def turnstile_form_def optional_field_def
      hostname_allowed_def ALLOWED_TURNSTILE_HOSTNAMES_def RATE_LIMIT_WINDOW_def
      is_send_def is_put_def)

lemma send_rejected_setting:
  "JSON_parse send_rejected jo_body = Some jo_payload"
  "kv_get_resolves send_rejected" "kv_put_resolves send_rejected"
  "\<not> ses_send_resolves send_rejected c p"
  "siteverify send_rejected form =
     Replied (JObj [(''success'', JBool True), (''hostname'', JStr ''raduhhr.xyz'')])"
  "toISOString_now send_rejected = ''2025-01-01T12:00:00.000Z''"
  by (simp_all add: send_rejected_def jo_services_def)

text \<open>
  C1 as stated fails: Jo's submission is valid, yet when SES rejects the send the
  handler has dispatched one email and written nothing to the KV store.
\<close>

theorem rejected_send_leaves_no_write:
  "trimmed_field jo_payload ''name'' = Some ''Jo'' \<and>
   trimmed_field jo_payload ''email'' = Some ''jo@example.com'' \<and>
   trimmed_field jo_payload ''message'' = Some ''Hello there, this works!'' \<and>
   trimmed_field jo_payload ''turnstileToken'' = Some ''tok'' \<and>
   isValidEmail ''jo@example.com'' \<and>
   previous_count (map_option fst (Map.empty ''ratelimit:203.0.113.7'')) = 0 \<and>
   effects (fetch send_rejected jo_env jo_request) =
     [KV_get ''ratelimit:203.0.113.7'', Request_text, JSON_parse_of jo_body,
      Siteverify [(''secret'', ''turnstile-secret''), (''response'', ''tok''),
                  (''remoteip'', ''203.0.113.7'')],
      SES_send (sesClient jo_env)
        (params ''Jo'' ''jo@example.com'' ''Hello there, this works!''
           ''2025-01-01T12:00:00.000Z'' ''203.0.113.7'' ''Mozilla/5.0'')] \<and>
   length (filter is_send (effects (fetch send_rejected jo_env jo_request))) = 1 \<and>
   filter is_put (effects (fetch send_rejected jo_env jo_request)) = [] \<and>
   store (fetch send_rejected jo_env jo_request) = Some Map.empty \<and>
   status (result (fetch send_rejected jo_env jo_request)) = 500"
proof -
  have run: "fetch send_rejected jo_env jo_request =
     \<lparr>result = json [(''error'', ''Failed to send email. Please try again later.'')] 500
         (buildCorsHeaders ''https://raduhhr.xyz'' @ buildSecurityHeaders),
      effects =
        [KV_get ''ratelimit:203.0.113.7'', Request_text, JSON_parse_of jo_body,
         Siteverify [(''secret'', ''turnstile-secret''), (''response'', ''tok''),
                     (''remoteip'', ''203.0.113.7'')],
         SES_send (sesClient jo_env)
           (params ''Jo'' ''jo@example.com'' ''Hello there, this works!''
              ''2025-01-01T12:00:00.000Z'' ''203.0.113.7'' ''Mozilla/5.0'')],
      store = Some Map.empty\<rparr>"
    using accepted_submission
      [of jo_request jo_env Map.empty send_rejected jo_payload "''Jo''" "''jo@example.com''"
        "''Hello there, this works!''" "''tok''"
        "JObj [(''success'', JBool True), (''hostname'', JStr ''raduhhr.xyz'')]"]
    by (simp add: Let_def jo_setting send_rejected_setting jo_fields jo_email ALLOWED_ORIGINS_def
        MAX_BODY_BYTES_def previous_count_None rateLimitKey_def turnstile_form_def
        optional_field_def hostname_allowed_def ALLOWED_TURNSTILE_HOSTNAMES_def)
  show ?thesis
    unfolding run
    by (simp add: jo_fields jo_email previous_count_None is_send_def is_put_def json_def)
qed

subsection \<open>Rejections\<close>

lemma quiet_filter: "quiet es \<Longrightarrow> filter is_send es = [] \<and> filter is_put es = []"
  by (induction es) (auto simp: quiet_def)

lemma serve_replicate:
  "store (fetch sv env req) = RATE_LIMITER env \<Longrightarrow>
   serve sv env (replicate n req) = replicate n (fetch sv env req)"
  by (induction n) (simp_all add: Let_def)

lemma rejection_is_quiet:
  assumes "400 \<le> status (result (fetch sv env req))" and "status (result (fetch sv env req)) < 500"
  shows "quiet (effects (fetch sv env req)) \<and> store (fetch sv env req) = RATE_LIMITER env"
proof -
  let ?origin = "or_default (header_Origin req) []"
  let ?hdrs = "buildCorsHeaders ?origin @ buildSecurityHeaders"
  consider (forbidden) "?origin \<noteq> []" "?origin \<notin> ALLOWED_ORIGINS"
    | (other) "?origin = [] \<or> ?origin \<in> ALLOWED_ORIGINS" "request_method req \<noteq> ''POST''"
    | (post) "?origin = [] \<or> ?origin \<in> ALLOWED_ORIGINS" "request_method req = ''POST''"
    by blast
  then show ?thesis
  proof cases
    case forbidden
    then show ?thesis by (simp add: fetch_forbidden quiet_simps)
  next
    case other
    then show ?thesis by (simp add: fetch_not_post Let_def quiet_simps)
  next
    case post
    note f = fetch_post [OF post]
    show ?thesis
    proof (cases "result (try_block sv env req ?hdrs)")
      case None
      with assms show ?thesis by (simp add: f Let_def json_def)
    next
      case (Some resp)
      with assms have st: "400 \<le> status resp" "status resp < 500"
        by (simp_all add: f Let_def)
      from try_block_orderly [of ?hdrs env sv req] Some st
      show ?thesis by (auto simp: orderly_def f Let_def)
    qed
  qed
qed

text \<open>
  C2. A request answered with a 4xx status sent no email and wrote nothing to the
  KV store, which is as it was; so however often the request is sent again (the
  services answering as before), every run has this same outcome.
\<close>

theorem rejection_has_no_side_effects:
  assumes "400 \<le> status (result (fetch sv env req))" and "status (result (fetch sv env req)) < 500"
  shows "filter is_send (effects (fetch sv env req)) = [] \<and>
         filter is_put (effects (fetch sv env req)) = [] \<and>
         store (fetch sv env req) = RATE_LIMITER env \<and>
         serve sv env (replicate n req) = replicate n (fetch sv env req)"
  using rejection_is_quiet [OF assms] by (simp add: quiet_filter serve_replicate)

text \<open>A body that is not JSON, sent three times.\<close>

theorem rejection_has_no_side_effects_witness:
  \<open>status (result (fetch jo_services jo_env (jo_request\<lparr>body_text := ''{"name":''\<rparr>))) = 400 \<and>
   filter is_send (effects (fetch jo_services jo_env (jo_request\<lparr>body_text := ''{"name":''\<rparr>))) = [] \<and>
   filter is_put (effects (fetch jo_services jo_env (jo_request\<lparr>body_text := ''{"name":''\<rparr>))) = [] \<and>
   store (fetch jo_services jo_env (jo_request\<lparr>body_text := ''{"name":''\<rparr>)) = Some Map.empty \<and>
   serve jo_services jo_env (replicate 3 (jo_request\<lparr>body_text := ''{"name":''\<rparr>)) =
     replicate 3 (fetch jo_services jo_env (jo_request\<lparr>body_text := ''{"name":''\<rparr>))\<close>
proof -
  let ?r = \<open>jo_request\<lparr>body_text := ''{"name":''\<rparr>\<close>
  have p: \<open>JSON_parse jo_services ''{"name":'' = None\<close>
    by (simp add: jo_services_def jo_body_def)
  have st: "status (result (fetch jo_services jo_env ?r)) = 400"
    by (simp add: fetch_def try_block_def Let_def jo_setting p ALLOWED_ORIGINS_def
        over_limit_def MAX_BODY_BYTES_def json_def)
  from rejection_has_no_side_effects [of jo_services jo_env ?r 3] st
  show ?thesis by (simp add: jo_setting)
qed

subsection \<open>Headers\<close>

lemma common_headers_lookup:
  fixes origin :: string
  defines "hdrs \<equiv> buildCorsHeaders origin @ buildSecurityHeaders"
  assumes "h = hdrs \<or> h = (''Content-Type'', ''application/json; charset=utf-8'') # hdrs"
  shows "map_of h ''Access-Control-Allow-Origin'' =
           (if origin \<noteq> [] \<and> origin \<in> ALLOWED_ORIGINS then Some origin else None)"
    and "map_of h ''Access-Control-Allow-Methods'' = Some ''POST, OPTIONS''"
    and "map_of h ''Access-Control-Allow-Headers'' = Some ''Content-Type''"
    and "map_of h ''Access-Control-Max-Age'' = Some ''86400''"
    and "map_of h ''Vary'' = Some ''Origin''"
    and "map_of h ''X-Content-Type-Options'' = Some ''nosniff''"
    and "map_of h ''X-Frame-Options'' = Some ''DENY''"
    and "map_of h ''X-XSS-Protection'' = Some ''1; mode=block''"
    and "map_of h ''Referrer-Policy'' = Some ''strict-origin-when-cross-origin''"
    and \<open>map_of h ''Content-Security-Policy'' = Some ''default-src 'none'; frame-ancestors 'none';''\<close>
  using assms(2) unfolding hdrs_def
  by (auto simp: buildCorsHeaders_def buildSecurityHeaders_def)

lemma accepted_origin_headers:
  assumes "or_default (header_Origin req) [] = [] \<or> or_default (header_Origin req) [] \<in> ALLOWED_ORIGINS"
  shows "headers (result (fetch sv env req)) =
           buildCorsHeaders (or_default (header_Origin req) []) @ buildSecurityHeaders \<or>
         headers (result (fetch sv env req)) =
           (''Content-Type'', ''application/json; charset=utf-8'')
           # buildCorsHeaders (or_default (header_Origin req) []) @ buildSecurityHeaders"
proof (cases "request_method req = ''POST''")
  case False
  with assms show ?thesis by (simp add: fetch_not_post Let_def json_def)
next
  case True
  let ?hdrs = "buildCorsHeaders (or_default (header_Origin req) []) @ buildSecurityHeaders"
  note f = fetch_post [OF assms True]
  show ?thesis
  proof (cases "result (try_block sv env req ?hdrs)")
    case None
    then show ?thesis by (simp add: f Let_def json_def)
  next
    case (Some resp)
    with try_block_orderly [of ?hdrs env sv req] show ?thesis
      by (simp add: orderly_def f Let_def)
  qed
qed

text \<open>
  C3, as amended. Every response to a request whose Origin is absent or on the
  allow-list carries the CORS headers (the origin echoed exactly when there is one)
  and the security headers, whatever the method and the outcome. The 403 for a
  disallowed Origin carries the Content-Type alone.
\<close>

theorem accepted_origin_responses_carry_headers:
  fixes sv :: services and env :: env and req :: request
  defines "origin \<equiv> or_default (header_Origin req) []"
  defines "hs \<equiv> headers (result (fetch sv env req))"
  shows \<open>(origin = [] \<or> origin \<in> ALLOWED_ORIGINS \<longrightarrow>
            map_of hs ''Access-Control-Allow-Origin'' = (if origin = [] then None else Some origin) \<and>
            map_of hs ''Access-Control-Allow-Methods'' = Some ''POST, OPTIONS'' \<and>
            map_of hs ''Access-Control-Allow-Headers'' = Some ''Content-Type'' \<and>
            map_of hs ''Access-Control-Max-Age'' = Some ''86400'' \<and>
            map_of hs ''Vary'' = Some ''Origin'' \<and>
            map_of hs ''X-Content-Type-Options'' = Some ''nosniff'' \<and>
            map_of hs ''X-Frame-Options'' = Some ''DENY'' \<and>
            map_of hs ''X-XSS-Protection'' = Some ''1; mode=block'' \<and>
            map_of hs ''Referrer-Policy'' = Some ''strict-origin-when-cross-origin'' \<and>
            map_of hs ''Content-Security-Policy'' =
              Some ''default-src 'none'; frame-ancestors 'none';'') \<and>
         (origin \<noteq> [] \<and> origin \<notin> ALLOWED_ORIGINS \<longrightarrow>
            status (result (fetch sv env req)) = 403 \<and>
            hs = [(''Content-Type'', ''application/json; charset=utf-8'')])\<close>
proof (intro conjI impI)
  assume a: "origin = [] \<or> origin \<in> ALLOWED_ORIGINS"
  note h = accepted_origin_headers [OF a [unfolded origin_def], of sv env, folded hs_def origin_def]
  note l = common_headers_lookup [OF h]
  show "map_of hs ''Access-Control-Allow-Origin'' = (if origin = [] then None else Some origin)"
    using l(1) a by auto
  show "map_of hs ''Access-Control-Allow-Methods'' = Some ''POST, OPTIONS''" by (rule l)
  show "map_of hs ''Access-Control-Allow-Headers'' = Some ''Content-Type''" by (rule l)
  show "map_of hs ''Access-Control-Max-Age'' = Some ''86400''" by (rule l)
  show "map_of hs ''Vary'' = Some ''Origin''" by (rule l)
  show "map_of hs ''X-Content-Type-Options'' = Some ''nosniff''" by (rule l)
  show "map_of hs ''X-Frame-Options'' = Some ''DENY''" by (rule l)
  show "map_of hs ''X-XSS-Protection'' = Some ''1; mode=block''" by (rule l)
  show "map_of hs ''Referrer-Policy'' = Some ''strict-origin-when-cross-origin''" by (rule l)
  show \<open>map_of hs ''Content-Security-Policy'' = Some ''default-src 'none'; frame-ancestors 'none';''\<close>
    by (rule l)
next
  assume "origin \<noteq> [] \<and> origin \<notin> ALLOWED_ORIGINS"
  then have f: "fetch sv env req =
     \<lparr>result = json [(''error'', ''Forbidden origin'')] 403 [], effects = [],
      store = RATE_LIMITER env\<rparr>"
    unfolding origin_def by (intro fetch_forbidden) simp_all
  show "status (result (fetch sv env req)) = 403" by (simp add: f json_def)
  show "hs = [(''Content-Type'', ''application/json; charset=utf-8'')]"
    by (simp add: hs_def f json_def)
qed

lemma foreign_origin: "''https://example.org'' \<notin> ALLOWED_ORIGINS"
  by (simp add: ALLOWED_ORIGINS_def)

text \<open>Jo's submission, and the same request from an origin that is not allowed.\<close>

theorem accepted_origin_responses_carry_headers_witness:
  \<open>map_of (headers (result (fetch jo_services jo_env jo_request))) ''Access-Control-Allow-Origin'' =
     Some ''https://raduhhr.xyz'' \<and>
   map_of (headers (result (fetch jo_services jo_env jo_request))) ''Vary'' = Some ''Origin'' \<and>
   map_of (headers (result (fetch jo_services jo_env jo_request))) ''X-Frame-Options'' = Some ''DENY'' \<and>
   map_of (headers (result (fetch jo_services jo_env jo_request))) ''Content-Security-Policy'' =
     Some ''default-src 'none'; frame-ancestors 'none';'' \<and>
   headers (result (fetch jo_services jo_env
      (jo_request\<lparr>header_Origin := Some ''https://example.org''\<rparr>))) =
     [(''Content-Type'', ''application/json; charset=utf-8'')]\<close>
proof -
  have allowed:
    \<open>map_of (headers (result (fetch jo_services jo_env jo_request))) ''Access-Control-Allow-Origin'' =
       Some ''https://raduhhr.xyz'' \<and>
     map_of (headers (result (fetch jo_services jo_env jo_request))) ''Vary'' = Some ''Origin'' \<and>
     map_of (headers (result (fetch jo_services jo_env jo_request))) ''X-Frame-Options'' = Some ''DENY'' \<and>
     map_of (headers (result (fetch jo_services jo_env jo_request))) ''Content-Security-Policy'' =
       Some ''default-src 'none'; frame-ancestors 'none';''\<close>
    using accepted_origin_responses_carry_headers [of jo_request jo_services jo_env]
    by (simp add: jo_setting ALLOWED_ORIGINS_def)
  have foreign:
    "headers (result (fetch jo_services jo_env
        (jo_request\<lparr>header_Origin := Some ''https://example.org''\<rparr>))) =
       [(''Content-Type'', ''application/json; charset=utf-8'')]"
    using accepted_origin_responses_carry_headers
      [of "jo_request\<lparr>header_Origin := Some ''https://example.org''\<rparr>" jo_services jo_env]
    by (simp add: foreign_origin or_default_def)
  from allowed foreign show ?thesis by simp
qed

text \<open>
  C3 as stated fails: the 403 for a disallowed Origin has no CORS header and no
  security header.
\<close>

theorem forbidden_origin_response_lacks_headers:
  \<open>status (result (fetch jo_services jo_env
      (jo_request\<lparr>header_Origin := Some ''https://example.org''\<rparr>))) = 403 \<and>
   map_of (headers (result (fetch jo_services jo_env
      (jo_request\<lparr>header_Origin := Some ''https://example.org''\<rparr>)))) ''Vary'' = None \<and>
   map_of (headers (result (fetch jo_services jo_env
      (jo_request\<lparr>header_Origin := Some ''https://example.org''\<rparr>)))) ''Access-Control-Allow-Methods'' = None \<and>
   map_of (headers (result (fetch jo_services jo_env
      (jo_request\<lparr>header_Origin := Some ''https://example.org''\<rparr>)))) ''X-Content-Type-Options'' = None \<and>
   map_of (headers (result (fetch jo_services jo_env
      (jo_request\<lparr>header_Origin := Some ''https://example.org''\<rparr>)))) ''X-Frame-Options'' = None \<and>
   map_of (headers (result (fetch jo_services jo_env
      (jo_request\<lparr>header_Origin := Some ''https://example.org''\<rparr>)))) ''Content-Security-Policy'' = None\<close>
  by (simp add: fetch_forbidden foreign_origin or_default_def json_def)

subsection \<open>The body size guard\<close>

lemma utf8_length_replicate:
  "utf8_length (replicate n c) = n * (if (of_char c :: nat) < 128 then 1 else 2)"
  by (induction n) (simp_all add: utf8_length_def)

lemma length_le_utf8_length: "length s \<le> utf8_length s"
  by (induction s) (simp_all add: utf8_length_def)

lemma body_size_guard:
  assumes "or_default (header_Origin req) [] = [] \<or> or_default (header_Origin req) [] \<in> ALLOWED_ORIGINS"
    and "request_method req = ''POST''"
    and "or_default (TURNSTILE_SECRET_KEY env) [] \<noteq> []"
    and "or_default (AWS_ACCESS_KEY_ID env) [] \<noteq> []"
    and "or_default (AWS_SECRET_ACCESS_KEY env) [] \<noteq> []"
    and "RATE_LIMITER env = Some kv"
    and "kv_get_resolves sv"
    and "\<not> over_limit (map_option fst (kv (rateLimitKey (or_default (header_CF_Connecting_IP req) ''unknown''))))"
    and "length (body_text req) > MAX_BODY_BYTES"
  shows "fetch sv env req =
     \<lparr>result = json [(''error'', ''Payload too large'')] 413
         (buildCorsHeaders (or_default (header_Origin req) []) @ buildSecurityHeaders),
      effects = [KV_get (rateLimitKey (or_default (header_CF_Connecting_IP req) ''unknown'')),
                 Request_text],
      store = Some kv\<rparr>"
  using assms(3-) unfolding fetch_post [OF assms(1,2)]
  by (simp add: try_block_def Let_def)

text \<open>
  C4. The guard compares the number of code units of the decoded body with
  \<open>MAX_BODY_BYTES\<close>. A body of 5001 letters U+00E9 is 10002 bytes long and passes
  it: the handler goes on to parse the body and answers 400, not 413.
\<close>

theorem size_guard_counts_code_units:
  "utf8_length (body_text (jo_request\<lparr>body_text := replicate 5001 (CHR 0xE9)\<rparr>)) = 10002 \<and>
   MAX_BODY_BYTES = 10000 \<and>
   status (result (fetch jo_services jo_env (jo_request\<lparr>body_text := replicate 5001 (CHR 0xE9)\<rparr>))) = 400 \<and>
   body (result (fetch jo_services jo_env (jo_request\<lparr>body_text := replicate 5001 (CHR 0xE9)\<rparr>))) =
     Some [(''error'', ''Invalid JSON'')] \<and>
   effects (fetch jo_services jo_env (jo_request\<lparr>body_text := replicate 5001 (CHR 0xE9)\<rparr>)) =
     [KV_get ''ratelimit:203.0.113.7'', Request_text, JSON_parse_of (replicate 5001 (CHR 0xE9))]"
proof -
  have "replicate 5001 (CHR 0xE9) \<noteq> jo_body"
  proof
    assume "replicate 5001 (CHR 0xE9) = jo_body"
    then have "length (replicate 5001 (CHR 0xE9)) = length jo_body"
      by (rule arg_cong)
    then show False
      by (simp add: jo_setting)
  qed
  then have p: "JSON_parse jo_services (replicate 5001 (CHR 0xE9)) = None"
    by (simp add: jo_services_def)
  show ?thesis
    by (simp add: utf8_length_replicate MAX_BODY_BYTES_def fetch_def try_block_def Let_def
        jo_setting p ALLOWED_ORIGINS_def over_limit_def json_def rateLimitKey_def)
qed

subsection \<open>The rate limit\<close>

lemma rate_limited_run:
  assumes "or_default (header_Origin req) [] = [] \<or> or_default (header_Origin req) [] \<in> ALLOWED_ORIGINS"
    and "request_method req = ''POST''"
    and "or_default (TURNSTILE_SECRET_KEY env) [] \<noteq> []"
    and "or_default (AWS_ACCESS_KEY_ID env) [] \<noteq> []"
    and "or_default (AWS_SECRET_ACCESS_KEY env) [] \<noteq> []"
    and "RATE_LIMITER env = Some kv"
    and "kv_get_resolves sv"
    and "5 \<le> previous_count (map_option fst (kv (rateLimitKey (or_default (header_CF_Connecting_IP req) ''unknown''))))"
  shows "fetch sv env req =
     \<lparr>result = json [(''error'', ''Rate limit exceeded. Please try again in an hour.'')] 429
         (buildCorsHeaders (or_default (header_Origin req) []) @ buildSecurityHeaders),
      effects = [KV_get (rateLimitKey (or_default (header_CF_Connecting_IP req) ''unknown''))],
      store = Some kv\<rparr>"
  using assms(3-) unfolding fetch_post [OF assms(1,2)]
  by (simp add: try_block_def Let_def over_limit_iff)

text \<open>
  The same valid submission sent \<open>n\<close> times while \<open>c\<close> submissions are counted:
  it is accepted until the count is 5 and answered with 429 from then on.
\<close>

lemma serve_valid_submission:
  fixes sv :: services and env :: env and req :: request
  defines "ip \<equiv> or_default (header_CF_Connecting_IP req) ''unknown''"
  assumes origin: "or_default (header_Origin req) [] = [] \<or> or_default (header_Origin req) [] \<in> ALLOWED_ORIGINS"
    and post: "request_method req = ''POST''"
    and env: "or_default (TURNSTILE_SECRET_KEY env) [] \<noteq> []" "or_default (AWS_ACCESS_KEY_ID env) [] \<noteq> []"
      "or_default (AWS_SECRET_ACCESS_KEY env) [] \<noteq> []"
    and get: "kv_get_resolves sv"
    and size: "length (body_text req) \<le> MAX_BODY_BYTES"
    and parse: "JSON_parse sv (body_text req) = Some payload"
    and fields: "trimmed_field payload ''name'' = Some name" "trimmed_field payload ''email'' = Some email"
      "trimmed_field payload ''message'' = Some message" "trimmed_field payload ''turnstileToken'' = Some token"
    and valid: "2 \<le> length name" "length name \<le> 100" "isValidEmail email"
      "10 \<le> length message" "length message \<le> 2000" "token \<noteq> []"
    and verified:
      "siteverify sv (turnstile_form token (or_default (TURNSTILE_SECRET_KEY env) []) ip) = Replied v"
      "truthy (optional_field v ''success'')" "hostname_allowed (optional_field v ''hostname'')"
    and sent: "ses_send_resolves sv (sesClient env)
        (params name email message (toISOString_now sv) ip (or_default (header_User_Agent req) ''Unknown''))"
    and put: "kv_put_resolves sv"
    and c: "previous_count (map_option fst (kv (rateLimitKey ip))) = int c" "c \<le> 5"
  shows "map (\<lambda>out. (status (result out), length (filter is_send (effects out))))
           (serve sv (env\<lparr>RATE_LIMITER := Some kv\<rparr>) (replicate n req)) =
         replicate (min n (5 - c)) (200, 1) @ replicate (n - (5 - c)) (429, 0)"
  using c
proof (induction n arbitrary: kv c)
  case 0
  then show ?case by simp
next
  case (Suc n)
  let ?env = "env\<lparr>RATE_LIMITER := Some kv\<rparr>"
  have e: "or_default (TURNSTILE_SECRET_KEY ?env) [] \<noteq> []" "or_default (AWS_ACCESS_KEY_ID ?env) [] \<noteq> []"
    "or_default (AWS_SECRET_ACCESS_KEY ?env) [] \<noteq> []" "RATE_LIMITER ?env = Some kv"
    using env by simp_all
  show ?case
  proof (cases "c < 5")
    case True
    then have lt: "previous_count (map_option fst (kv (rateLimitKey (or_default (header_CF_Connecting_IP req) ''unknown'')))) < 5"
      using Suc.prems(1) by (simp add: ip_def)
    have v: "siteverify sv (turnstile_form token (or_default (TURNSTILE_SECRET_KEY ?env) [])
         (or_default (header_CF_Connecting_IP req) ''unknown'')) = Replied v"
      using verified(1) by (simp add: ip_def)
    note run = accepted_submission [OF origin post e get lt size parse fields valid v verified(2,3)]
    let ?kv = "kv(rateLimitKey ip \<mapsto> (String (int c + 1), RATE_LIMIT_WINDOW))"
    have out: "status (result (fetch sv ?env req)) = 200"
      "length (filter is_send (effects (fetch sv ?env req))) = 1"
      "store (fetch sv ?env req) = Some ?kv"
      using sent put Suc.prems(1)
      by (simp_all add: run Let_def json_def is_send_def sesClient_def ip_def)
    have next_count: "previous_count (map_option fst (?kv (rateLimitKey ip))) = int (Suc c)"
      by (simp add: previous_count_String)
    have "Suc c \<le> 5" using True by simp
    from Suc.IH [of ?kv "Suc c", OF next_count this]
    have rest: "map (\<lambda>out. (status (result out), length (filter is_send (effects out))))
           (serve sv (env\<lparr>RATE_LIMITER := Some ?kv\<rparr>) (replicate n req)) =
         replicate (min n (5 - Suc c)) (200, 1) @ replicate (n - (5 - Suc c)) (429, 0)" .
    have m: "min (Suc n) (5 - c) = Suc (min n (5 - Suc c))" "Suc n - (5 - c) = n - (5 - Suc c)"
      using True by auto
    have step: "serve sv ?env (replicate (Suc n) req) =
        fetch sv ?env req # serve sv (env\<lparr>RATE_LIMITER := Some ?kv\<rparr>) (replicate n req)"
      by (simp add: Let_def out)
    show ?thesis
      unfolding step m using rest by (simp add: out)
  next
    case False
    with Suc.prems have c5: "c = 5" by simp
    then have ge: "5 \<le> previous_count (map_option fst (kv (rateLimitKey (or_default (header_CF_Connecting_IP req) ''unknown''))))"
      using Suc.prems(1) by (simp add: ip_def)
    note run = rate_limited_run [OF origin post e get ge]
    have out: "status (result (fetch sv ?env req)) = 429"
      "length (filter is_send (effects (fetch sv ?env req))) = 0"
      "store (fetch sv ?env req) = Some kv"
      by (simp_all add: run json_def is_send_def)
    from Suc.IH [of kv c, OF Suc.prems]
    have rest: "map (\<lambda>out. (status (result out), length (filter is_send (effects out))))
           (serve sv (env\<lparr>RATE_LIMITER := Some kv\<rparr>) (replicate n req)) =
         replicate (min n (5 - c)) (200, 1) @ replicate (n - (5 - c)) (429, 0)" .
    have step: "serve sv ?env (replicate (Suc n) req) =
        fetch sv ?env req # serve sv (env\<lparr>RATE_LIMITER := Some kv\<rparr>) (replicate n req)"
      by (simp add: Let_def out)
    show ?thesis
      unfolding step using rest by (simp add: out c5)
  qed
qed

text \<open>
  C5. For a POST that reaches the rate limit check, a stored count of at least 5
  gives 429 after the KV read alone: the body is not read and no email is sent. And
  a valid submission sent six times, starting with no counter, is accepted five
  times, with one email each, and answered with 429 and no email the sixth time.
\<close>

theorem rate_limit_boundary:
  fixes sv :: services and env :: env and req :: request and kv :: kv_namespace
  defines "origin \<equiv> or_default (header_Origin req) []"
  defines "ip \<equiv> or_default (header_CF_Connecting_IP req) ''unknown''"
  defines "secret \<equiv> or_default (TURNSTILE_SECRET_KEY env) []"
  defines "count \<equiv> previous_count (map_option fst (kv (rateLimitKey ip)))"
  assumes origin: "origin = [] \<or> origin \<in> ALLOWED_ORIGINS"
    and post: "request_method req = ''POST''"
    and env: "secret \<noteq> []" "or_default (AWS_ACCESS_KEY_ID env) [] \<noteq> []"
      "or_default (AWS_SECRET_ACCESS_KEY env) [] \<noteq> []"
    and kv: "RATE_LIMITER env = Some kv"
    and get: "kv_get_resolves sv"
  shows "(5 \<le> count \<longrightarrow>
            status (result (fetch sv env req)) = 429 \<and>
            body (result (fetch sv env req)) =
              Some [(''error'', ''Rate limit exceeded. Please try again in an hour.'')] \<and>
            effects (fetch sv env req) = [KV_get (rateLimitKey ip)] \<and>
            store (fetch sv env req) = Some kv) \<and>
         (kv (rateLimitKey ip) = None \<and>
          length (body_text req) \<le> MAX_BODY_BYTES \<and>
          JSON_parse sv (body_text req) = Some payload \<and>
          trimmed_field payload ''name'' = Some name \<and>
          trimmed_field payload ''email'' = Some email \<and>
          trimmed_field payload ''message'' = Some message \<and>
          trimmed_field payload ''turnstileToken'' = Some token \<and>
          2 \<le> length name \<and> length name \<le> 100 \<and> isValidEmail email \<and>
          10 \<le> length message \<and> length message \<le> 2000 \<and> token \<noteq> [] \<and>
          siteverify sv (turnstile_form token secret ip) = Replied v \<and>
          truthy (optional_field v ''success'') \<and> hostname_allowed (optional_field v ''hostname'') \<and>
          ses_send_resolves sv (sesClient env)
            (params name email message (toISOString_now sv) ip
               (or_default (header_User_Agent req) ''Unknown'')) \<and>
          kv_put_resolves sv \<longrightarrow>
            map (\<lambda>out. (status (result out), length (filter is_send (effects out))))
              (serve sv env (replicate 6 req)) =
            [(200, 1), (200, 1), (200, 1), (200, 1), (200, 1), (429, 0)])"
proof (intro conjI impI)
  assume "5 \<le> count"
  note run = rate_limited_run [OF origin [unfolded origin_def] post env [unfolded secret_def] kv get
      this [unfolded count_def ip_def]]
  show "status (result (fetch sv env req)) = 429"
    "body (result (fetch sv env req)) =
       Some [(''error'', ''Rate limit exceeded. Please try again in an hour.'')]"
    "effects (fetch sv env req) = [KV_get (rateLimitKey ip)]"
    "store (fetch sv env req) = Some kv"
    by (simp_all add: run json_def ip_def)
next
  assume a: "kv (rateLimitKey ip) = None \<and>
          length (body_text req) \<le> MAX_BODY_BYTES \<and>
          JSON_parse sv (body_text req) = Some payload \<and>
          trimmed_field payload ''name'' = Some name \<and>
          trimmed_field payload ''email'' = Some email \<and>
          trimmed_field payload ''message'' = Some message \<and>
          trimmed_field payload ''turnstileToken'' = Some token \<and>
          2 \<le> length name \<and> length name \<le> 100 \<and> isValidEmail email \<and>
          10 \<le> length message \<and> length message \<le> 2000 \<and> token \<noteq> [] \<and>
          siteverify sv (turnstile_form token secret ip) = Replied v \<and>
          truthy (optional_field v ''success'') \<and> hostname_allowed (optional_field v ''hostname'') \<and>
          ses_send_resolves sv (sesClient env)
            (params name email message (toISOString_now sv) ip
               (or_default (header_User_Agent req) ''Unknown'')) \<and>
          kv_put_resolves sv"
  have e: "env\<lparr>RATE_LIMITER := Some kv\<rparr> = env"
    using kv by simp
  from a have size: "length (body_text req) \<le> MAX_BODY_BYTES"
    and parse: "JSON_parse sv (body_text req) = Some payload"
    and fields: "trimmed_field payload ''name'' = Some name"
      "trimmed_field payload ''email'' = Some email"
      "trimmed_field payload ''message'' = Some message"
      "trimmed_field payload ''turnstileToken'' = Some token"
    and valid: "2 \<le> length name" "length name \<le> 100" "isValidEmail email"
      "10 \<le> length message" "length message \<le> 2000" "token \<noteq> []"
    and verified: "siteverify sv (turnstile_form token secret ip) = Replied v"
      "truthy (optional_field v ''success'')" "hostname_allowed (optional_field v ''hostname'')"
    and sent: "ses_send_resolves sv (sesClient env)
            (params name email message (toISOString_now sv) ip
               (or_default (header_User_Agent req) ''Unknown''))"
    and put: "kv_put_resolves sv"
    by simp_all
  have c0: "previous_count (map_option fst (kv (rateLimitKey ip))) = int 0"
    using a by (simp add: previous_count_None)
  note chain = serve_valid_submission [where kv = kv and c = 0 and n = 6,
      OF origin [unfolded origin_def] post env [unfolded secret_def] get
      size parse fields valid verified [unfolded secret_def ip_def] sent [unfolded ip_def] put
      c0 [unfolded ip_def]]
  show "map (\<lambda>out. (status (result out), length (filter is_send (effects out))))
              (serve sv env (replicate 6 req)) =
            [(200, 1), (200, 1), (200, 1), (200, 1), (200, 1), (429, 0)]"
    using chain unfolding e by (simp add: eval_nat_numeral)
qed

lemma previous_count_5: "previous_count (Some ''5'') = 5"
  using previous_count_String [of 5] by (simp add: String_small)

text \<open>Jo's submission with a stored count of 5, and sent six times from no counter.\<close>

theorem rate_limit_boundary_witness:
  "status (result (fetch jo_services
      (jo_env\<lparr>RATE_LIMITER := Some [''ratelimit:203.0.113.7'' \<mapsto> (''5'', 3600)]\<rparr>) jo_request)) = 429 \<and>
   effects (fetch jo_services
      (jo_env\<lparr>RATE_LIMITER := Some [''ratelimit:203.0.113.7'' \<mapsto> (''5'', 3600)]\<rparr>) jo_request) =
     [KV_get ''ratelimit:203.0.113.7''] \<and>
   map (\<lambda>out. (status (result out), length (filter is_send (effects out))))
     (serve jo_services jo_env (replicate 6 jo_request)) =
     [(200, 1), (200, 1), (200, 1), (200, 1), (200, 1), (429, 0)]"
proof -
  have limited:
    "status (result (fetch jo_services
        (jo_env\<lparr>RATE_LIMITER := Some [''ratelimit:203.0.113.7'' \<mapsto> (''5'', 3600)]\<rparr>) jo_request)) = 429 \<and>
     effects (fetch jo_services
        (jo_env\<lparr>RATE_LIMITER := Some [''ratelimit:203.0.113.7'' \<mapsto> (''5'', 3600)]\<rparr>) jo_request) =
       [KV_get ''ratelimit:203.0.113.7'']"
    using rate_limit_boundary
      [of jo_request "jo_env\<lparr>RATE_LIMITER := Some [''ratelimit:203.0.113.7'' \<mapsto> (''5'', 3600)]\<rparr>"
        "[''ratelimit:203.0.113.7'' \<mapsto> (''5'', 3600)]" jo_services]
    by (simp add: jo_setting ALLOWED_ORIGINS_def rateLimitKey_def previous_count_5)
  have six:
    "map (\<lambda>out. (status (result out), length (filter is_send (effects out))))
       (serve jo_services jo_env (replicate 6 jo_request)) =
       [(200, 1), (200, 1), (200, 1), (200, 1), (200, 1), (429, 0)]"
    using rate_limit_boundary
      [of jo_request jo_env Map.empty jo_services jo_payload "''Jo''" "''jo@example.com''"
        "''Hello there, this works!''" "''tok''"
        "JObj [(''success'', JBool True), (''hostname'', JStr ''raduhhr.xyz'')]"]
    by (simp add: jo_setting jo_fields jo_email ALLOWED_ORIGINS_def MAX_BODY_BYTES_def
        optional_field_def hostname_allowed_def ALLOWED_TURNSTILE_HOSTNAMES_def)
  from limited six show ?thesis by simp
qed

subsection \<open>The hostname of the verification\<close>

lemma verify_and_send_hostname_gate:
  assumes "siteverify sv (turnstile_form token (or_default (TURNSTILE_SECRET_KEY env) []) ip) = Replied v"
    and "optional_field v ''success'' = JBool True"
    and "\<not> hostname_allowed (optional_field v ''hostname'')"
  shows "verify_and_send sv env req hdrs kv ip sc name email message token =
     \<lparr>result = Some (json [(''error'', ''Invalid verification context'')] 400 hdrs),
      effects = [Siteverify (turnstile_form token (or_default (TURNSTILE_SECRET_KEY env) []) ip)],
      store = Some kv\<rparr>"
proof -
  have v: "validateTurnstileToken sv token (or_default (TURNSTILE_SECRET_KEY env) []) ip = v"
    using assms(1) by (simp add: validateTurnstileToken_def)
  obtain h where h: "get_field v ''hostname'' = Some h"
    using assms(2) by (cases v) (auto simp: optional_field_def)
  then have "\<not> hostname_allowed h"
    using assms(3) by (simp add: optional_field_def)
  then show ?thesis
    using assms(2) h by (simp add: verify_and_send_def Let_def v hostname_allowed_or_empty)
qed

text \<open>
  C6. Whenever the handler has called the verifier and the reply has success true
  and a hostname that is not on the allow-list (or no hostname), the response is the
  400 with the message about the verification context, and no email is sent and
  nothing written.
\<close>

theorem disallowed_hostname_rejected:
  assumes called: "Siteverify form \<in> set (effects (fetch sv env req))"
    and reply: "siteverify sv form = Replied v"
    and success: "optional_field v ''success'' = JBool True"
    and hostname: "\<not> hostname_allowed (optional_field v ''hostname'')"
  shows "status (result (fetch sv env req)) = 400 \<and>
         body (result (fetch sv env req)) = Some [(''error'', ''Invalid verification context'')] \<and>
         filter is_send (effects (fetch sv env req)) = [] \<and>
         filter is_put (effects (fetch sv env req)) = []"
proof -
  let ?origin = "or_default (header_Origin req) []"
  let ?hdrs = "buildCorsHeaders ?origin @ buildSecurityHeaders"
  let ?ip = "or_default (header_CF_Connecting_IP req) ''unknown''"
  have origin: "?origin = [] \<or> ?origin \<in> ALLOWED_ORIGINS"
  proof (rule ccontr)
    assume "\<not> ?thesis"
    then have "effects (fetch sv env req) = []" by (simp add: fetch_forbidden)
    with called show False by simp
  qed
  have post: "request_method req = ''POST''"
  proof (rule ccontr)
    assume "\<not> ?thesis"
    with origin have "effects (fetch sv env req) = []" by (simp add: fetch_not_post Let_def)
    with called show False by simp
  qed
  note f = fetch_post [OF origin post]
  from called have "Siteverify form \<in> set (effects (try_block sv env req ?hdrs))"
    by (simp add: f Let_def)
  from siteverify_in_try_block [OF this] obtain kv payload es where
    es: "quiet es" and
    inside: "Siteverify form \<in> set (effects (process_payload sv env req ?hdrs kv ?ip
                (map_option fst (kv (rateLimitKey ?ip))) payload))" and
    tb: "try_block sv env req ?hdrs = after_effects es (process_payload sv env req ?hdrs kv ?ip
                (map_option fst (kv (rateLimitKey ?ip))) payload)"
    by blast
  from siteverify_in_process_payload [OF inside] obtain name email message token where
    pp: "process_payload sv env req ?hdrs kv ?ip (map_option fst (kv (rateLimitKey ?ip))) payload =
         verify_and_send sv env req ?hdrs kv ?ip (map_option fst (kv (rateLimitKey ?ip)))
           name email message token"
    by blast
  from inside have form: "form = turnstile_form token (or_default (TURNSTILE_SECRET_KEY env) []) ?ip"
    by (simp add: pp siteverify_in_verify_and_send)
  note vs = verify_and_send_hostname_gate [OF reply [unfolded form] success hostname]
  from es have "filter is_send es = []" "filter is_put es = []"
    by (simp_all add: quiet_filter)
  then show ?thesis
    by (simp add: f Let_def tb pp vs after_effects_def json_def is_send_def is_put_def)
qed

text \<open>A token issued for example.org, and a reply with no hostname.\<close>

theorem disallowed_hostname_rejected_witness:
  "status (result (fetch
      (jo_services\<lparr>siteverify := \<lambda>form. Replied (JObj [(''success'', JBool True),
                                                       (''hostname'', JStr ''example.org'')])\<rparr>)
      jo_env jo_request)) = 400 \<and>
   body (result (fetch
      (jo_services\<lparr>siteverify := \<lambda>form. Replied (JObj [(''success'', JBool True),
                                                       (''hostname'', JStr ''example.org'')])\<rparr>)
      jo_env jo_request)) = Some [(''error'', ''Invalid verification context'')] \<and>
   filter is_send (effects (fetch
      (jo_services\<lparr>siteverify := \<lambda>form. Replied (JObj [(''success'', JBool True),
                                                       (''hostname'', JStr ''example.org'')])\<rparr>)
      jo_env jo_request)) = [] \<and>
   status (result (fetch
      (jo_services\<lparr>siteverify := \<lambda>form. Replied (JObj [(''success'', JBool True)])\<rparr>)
      jo_env jo_request)) = 400 \<and>
   body (result (fetch
      (jo_services\<lparr>siteverify := \<lambda>form. Replied (JObj [(''success'', JBool True)])\<rparr>)
      jo_env jo_request)) = Some [(''error'', ''Invalid verification context'')]"
proof -
  let ?form = "[(''secret'', ''turnstile-secret''), (''response'', ''tok''), (''remoteip'', ''203.0.113.7'')]"
  let ?v1 = "JObj [(''success'', JBool True), (''hostname'', JStr ''example.org'')]"
  let ?v2 = "JObj [(''success'', JBool True)]"
  let ?sv1 = "jo_services\<lparr>siteverify := \<lambda>form. Replied ?v1\<rparr>"
  let ?sv2 = "jo_services\<lparr>siteverify := \<lambda>form. Replied ?v2\<rparr>"
  have s: "JSON_parse (jo_services\<lparr>siteverify := g\<rparr>) = JSON_parse jo_services"
    "kv_get_resolves (jo_services\<lparr>siteverify := g\<rparr>)" for g
    by (simp_all add: jo_services_def)
  have called: "Siteverify ?form \<in> set (effects (fetch (jo_services\<lparr>siteverify := \<lambda>form. Replied w\<rparr>) jo_env jo_request))"
    for w
    by (simp add: fetch_post try_block_proceeds process_payload_fields validate_fields_passes
        jo_setting jo_fields jo_email s ALLOWED_ORIGINS_def over_limit_def MAX_BODY_BYTES_def
        Let_def after_effects_def siteverify_in_verify_and_send turnstile_form_def)
  have first: "status (result (fetch ?sv1 jo_env jo_request)) = 400 \<and>
      body (result (fetch ?sv1 jo_env jo_request)) = Some [(''error'', ''Invalid verification context'')] \<and>
      filter is_send (effects (fetch ?sv1 jo_env jo_request)) = []"
    using disallowed_hostname_rejected [of ?form ?sv1 jo_env jo_request ?v1] called [of ?v1]
    by (simp add: optional_field_def hostname_allowed_def ALLOWED_TURNSTILE_HOSTNAMES_def)
  have second: "status (result (fetch ?sv2 jo_env jo_request)) = 400 \<and>
      body (result (fetch ?sv2 jo_env jo_request)) = Some [(''error'', ''Invalid verification context'')]"
    using disallowed_hostname_rejected [of ?form ?sv2 jo_env jo_request ?v2] called [of ?v2]
    by (simp add: optional_field_def hostname_allowed_def ALLOWED_TURNSTILE_HOSTNAMES_def)
  from first second show ?thesis by simp
qed

subsection \<open>The email bodies\<close>

lemma sublist_later: "sublist x b \<Longrightarrow> sublist x (a @ b)"
  by (auto simp: sublist_def) (metis append.assoc)

lemma sublist_escapeHtml:
  assumes "sublist x y"
  shows "sublist (escapeHtml x) (escapeHtml y)"
proof -
  from assms obtain p q where "y = p @ x @ q"
    by (auto simp: sublist_def)
  then have "escapeHtml y = escapeHtml p @ escapeHtml x @ escapeHtml q"
    by (simp add: escapeHtml_append)
  then show ?thesis by simp
qed

lemma dropWhile_keeps:
  assumes "s \<noteq> []" and "\<not> P (hd s)"
  shows "\<exists>p'. dropWhile P (p @ s @ q) = p' @ s @ q"
proof -
  from assms obtain c s' where s: "s = c # s'" "\<not> P c"
    by (cases s) auto
  then have "dropWhile P (p @ s @ q) = dropWhile P p @ s @ q"
    by (simp add: dropWhile_append3)
  then show ?thesis by blast
qed

lemma trim_keeps_sublist:
  assumes "sublist s raw" and "s \<noteq> []"
    and "\<not> js_whitespace (hd s)" and "\<not> js_whitespace (last s)"
  shows "sublist s (trim raw)"
proof -
  from assms(1) obtain p q where raw: "raw = p @ s @ q"
    by (auto simp: sublist_def)
  from dropWhile_keeps [where P = js_whitespace and s = s and p = p and q = q, OF assms(2,3)]
  obtain pre where
    pre: "dropWhile js_whitespace (p @ s @ q) = pre @ s @ q"
    by blast
  have "rev s \<noteq> []" "\<not> js_whitespace (hd (rev s))"
    using assms(2,4) by (simp_all add: hd_rev)
  from dropWhile_keeps [where P = js_whitespace and s = "rev s" and p = "rev q" and q = "rev pre",
      OF this]
  obtain post where
    post: "dropWhile js_whitespace (rev q @ rev s @ rev pre) = post @ rev s @ rev pre"
    by blast
  have "trim raw = pre @ s @ rev post"
    by (simp add: trim_def raw pre post)
  then show ?thesis by simp
qed

lemma escapeHtml_markup_free:
  \<open>filter (\<lambda>c. c \<in> {CHR ''<'', CHR ''>'', CHR ''"'', CHR 0x27}) (escapeHtml s) = []\<close>
  using escapeHtml_no_markup [of _ s]
  by (auto simp: filter_empty_conv html_special_def)

lemma html_data_contains:
  "sublist (escapeHtml name) (html_data name email message now ip ua)"
  "sublist (escapeHtml email) (html_data name email message now ip ua)"
  "sublist (escapeHtml message) (html_data name email message now ip ua)"
  "sublist (escapeHtml now) (html_data name email message now ip ua)"
  "sublist (escapeHtml ip) (html_data name email message now ip ua)"
  "sublist (escapeHtml ua) (html_data name email message now ip ua)"
  unfolding html_data_def
  by (rule sublist_appendI | rule sublist_later)+

lemma text_data_contains:
  "sublist name (text_data name email message now ip ua)"
  "sublist email (text_data name email message now ip ua)"
  "sublist message (text_data name email message now ip ua)"
  unfolding text_data_def
  by (rule sublist_appendI | rule sublist_later)+

lemma html_data_markup:
  \<open>filter (\<lambda>c. c \<in> {CHR ''<'', CHR ''>'', CHR ''"'', CHR 0x27}) (html_data name email message now ip ua) =
   filter (\<lambda>c. c \<in> {CHR ''<'', CHR ''>'', CHR ''"'', CHR 0x27}) (html_data [] [] [] [] [] [])\<close>
  unfolding html_data_def filter_append escapeHtml_markup_free escapeHtml_Nil
  by simp

lemma script_escaped:
  "escapeHtml ''<script>alert(1)</script>'' = ''&lt;script&gt;alert(1)&lt;/script&gt;''"
  by (simp add: escapeHtml_def html_special_def replacement_def entity_map_def)

lemma posted_setting:
  "or_default (header_Origin (posted text)) [] = ''https://raduhhr.xyz''"
  "or_default (header_CF_Connecting_IP (posted text)) ''unknown'' = ''203.0.113.7''"
  "or_default (header_User_Agent (posted text)) ''Unknown'' = ''Mozilla/5.0''"
  "request_method (posted text) = ''POST''"
  "body_text (posted text) = text"
  "JSON_parse (parsing text payload) text = Some payload"
  "kv_get_resolves (parsing text payload)" "kv_put_resolves (parsing text payload)"
  "ses_send_resolves (parsing text payload) c p"
  "siteverify (parsing text payload) form =
     Replied (JObj [(''success'', JBool True), (''hostname'', JStr ''raduhhr.xyz'')])"
  "toISOString_now (parsing text payload) = ''2025-01-01T12:00:00.000Z''"
  by (simp_all add: posted_def parsing_def jo_setting jo_services_def)

lemma escapeHtml_entities:
  \<open>escapeHtml s =
     concat (map (\<lambda>c. if c = CHR ''&'' then ''&amp;''
                       else if c = CHR ''<'' then ''&lt;''
                       else if c = CHR ''>'' then ''&gt;''
                       else if c = CHR 0x22 then ''&quot;''
                       else if c = CHR 0x27 then ''&#39;''
                       else [c]) s)\<close>
proof -
  have \<open>(\<lambda>c. if html_special c then replacement c else [c]) =
        (\<lambda>c. if c = CHR ''&'' then ''&amp;''
             else if c = CHR ''<'' then ''&lt;''
             else if c = CHR ''>'' then ''&gt;''
             else if c = CHR 0x22 then ''&quot;''
             else if c = CHR 0x27 then ''&#39;''
             else [c])\<close>
    by (auto simp: fun_eq_iff html_special_def replacement_def entity_map_def)
  then show ?thesis
    by (simp only: escapeHtml_def)
qed

text \<open>
  C7. The one email of a valid submission has an HTML body that is the template
  with name, email, message, timestamp, IP and user agent escaped, where escaping
  replaces each \<^verbatim>\<open>&\<close> by \<^verbatim>\<open>&amp;\<close>, \<^verbatim>\<open><\<close> by \<^verbatim>\<open>&lt;\<close>, \<^verbatim>\<open>>\<close> by \<^verbatim>\<open>&gt;\<close>, double quote by
  \<^verbatim>\<open>&quot;\<close> and single quote by \<^verbatim>\<open>&#39;\<close> and keeps every other character, so that
  the markup characters of the body are those of the template; and a text body that
  is the template with name, email and message as they are. A script element in the
  message is escaped in the HTML body and verbatim in the text body.
\<close>

theorem html_body_escaped_text_body_verbatim:
  fixes sv :: services and env :: env and req :: request and kv :: kv_namespace
  defines "origin \<equiv> or_default (header_Origin req) []"
  defines "ip \<equiv> or_default (header_CF_Connecting_IP req) ''unknown''"
  defines "secret \<equiv> or_default (TURNSTILE_SECRET_KEY env) []"
  defines "now \<equiv> toISOString_now sv"
  defines "ua \<equiv> or_default (header_User_Agent req) ''Unknown''"
  defines \<open>entity \<equiv> \<lambda>c. if c = CHR ''&'' then ''&amp;''
                        else if c = CHR ''<'' then ''&lt;''
                        else if c = CHR ''>'' then ''&gt;''
                        else if c = CHR 0x22 then ''&quot;''
                        else if c = CHR 0x27 then ''&#39;''
                        else [c]\<close>
  defines "escaped \<equiv> \<lambda>s. concat (map entity s)"
  assumes origin: "origin = [] \<or> origin \<in> ALLOWED_ORIGINS"
    and post: "request_method req = ''POST''"
    and env: "secret \<noteq> []" "or_default (AWS_ACCESS_KEY_ID env) [] \<noteq> []"
      "or_default (AWS_SECRET_ACCESS_KEY env) [] \<noteq> []" "RATE_LIMITER env = Some kv"
    and get: "kv_get_resolves sv"
    and count: "previous_count (map_option fst (kv (rateLimitKey ip))) < 5"
    and size: "length (body_text req) \<le> MAX_BODY_BYTES"
    and parse: "JSON_parse sv (body_text req) = Some payload"
    and fields: "trimmed_field payload ''name'' = Some name"
      "trimmed_field payload ''email'' = Some email"
      "trimmed_field payload ''message'' = Some message"
      "trimmed_field payload ''turnstileToken'' = Some token"
    and valid: "2 \<le> length name" "length name \<le> 100" "isValidEmail email"
      "10 \<le> length message" "length message \<le> 2000" "token \<noteq> []"
    and verified: "siteverify sv (turnstile_form token secret ip) = Replied v"
      "truthy (optional_field v ''success'')" "hostname_allowed (optional_field v ''hostname'')"
  defines "ps \<equiv> params name email message now ip ua"
  shows \<open>filter is_send (effects (fetch sv env req)) = [SES_send (sesClient env) ps] \<and>
         (\<forall>s. escapeHtml s = escaped s) \<and>
         HtmlData ps =
           ''<h3>New Contact Submission</h3>'' @
           ''<p><strong>Name:</strong> '' @ escaped name @ ''</p>'' @
           ''<p><strong>Email:</strong> '' @ escaped email @ ''</p>'' @
           ''<p><strong>Message:</strong></p>'' @
           ''<pre style="white-space:pre-wrap;font-family:ui-monospace,Menlo,Consolas,monospace;padding:12px;background:#f6f8fa;border:1px solid #d0d7de;border-radius:6px;">'' @
           escaped message @ ''</pre>'' @
           ''<hr style="margin:20px 0;border:none;border-top:1px solid #d0d7de;"/>'' @
           ''<p style="font-size:12px;color:#57606a;">'' @
           ''<strong>Timestamp:</strong> '' @ escaped now @ ''<br/>'' @
           ''<strong>IP:</strong> '' @ escaped ip @ ''<br/>'' @
           ''<strong>User Agent:</strong> '' @ escaped ua @
           ''</p>'' \<and>
         TextData ps =
           ''New submission from: '' @ name @ ''\<newline>'' @
           ''Email: '' @ email @ ''\<newline>'' @
           ''Message: '' @ message @ ''\<newline>\<newline>'' @
           ''---\<newline>'' @
           ''Timestamp: '' @ now @ ''\<newline>'' @
           ''IP: '' @ ip @ ''\<newline>'' @
           ''User Agent: '' @ ua @ ''\<newline>'' \<and>
         sublist (escaped name) (HtmlData ps) \<and>
         sublist (escaped email) (HtmlData ps) \<and>
         sublist (escaped message) (HtmlData ps) \<and>
         sublist (escaped now) (HtmlData ps) \<and>
         sublist (escaped ip) (HtmlData ps) \<and>
         sublist (escaped ua) (HtmlData ps) \<and>
         filter (\<lambda>c. c \<in> {CHR ''<'', CHR ''>'', CHR ''"'', CHR 0x27}) (HtmlData ps) =
           filter (\<lambda>c. c \<in> {CHR ''<'', CHR ''>'', CHR ''"'', CHR 0x27}) (html_data [] [] [] [] [] []) \<and>
         sublist name (TextData ps) \<and>
         sublist email (TextData ps) \<and>
         sublist message (TextData ps) \<and>
         (\<forall>raw. get_field payload ''message'' = Some (JStr raw) \<and>
                sublist ''<script>alert(1)</script>'' raw \<longrightarrow>
            sublist ''&lt;script&gt;alert(1)&lt;/script&gt;'' (HtmlData ps) \<and>
            sublist ''<script>alert(1)</script>'' (TextData ps))\<close>
proof -
  note run = accepted_submission [OF origin [unfolded origin_def] post env [unfolded secret_def] get
      count [unfolded ip_def] size parse fields valid verified [unfolded secret_def ip_def]]
  have sends: "filter is_send (effects (fetch sv env req)) = [SES_send (sesClient env) ps]"
    unfolding run Let_def ps_def now_def ip_def ua_def
    by (simp add: is_send_def)
  have esc: "escapeHtml s = escaped s" for s
    unfolding escaped_def entity_def by (rule escapeHtml_entities)
  have html_eq: "HtmlData ps = html_data name email message now ip ua"
    and text_eq: "TextData ps = text_data name email message now ip ua"
    by (simp_all add: ps_def params_def)
  have script: "sublist ''&lt;script&gt;alert(1)&lt;/script&gt;'' (HtmlData ps) \<and>
                sublist ''<script>alert(1)</script>'' (TextData ps)"
    if raw: "get_field payload ''message'' = Some (JStr raw)"
      and inside: "sublist ''<script>alert(1)</script>'' raw" for raw
  proof -
    from inside have "raw \<noteq> []" by auto
    with raw fields(3) have m: "message = trim raw"
      by (simp add: trimmed_field_def)
    have kept: "sublist ''<script>alert(1)</script>'' message"
      unfolding m by (rule trim_keeps_sublist [OF inside]) (simp_all add: js_whitespace_def)
    from sublist_escapeHtml [OF kept]
    have "sublist ''&lt;script&gt;alert(1)&lt;/script&gt;'' (escapeHtml message)"
      by (simp only: script_escaped)
    then have "sublist ''&lt;script&gt;alert(1)&lt;/script&gt;'' (HtmlData ps)"
      unfolding html_eq using html_data_contains(3) by (rule sublist_order.order_trans)
    moreover have "sublist ''<script>alert(1)</script>'' (TextData ps)"
      unfolding text_eq using kept text_data_contains(3) by (rule sublist_order.order_trans)
    ultimately show ?thesis ..
  qed
  have html_shape: \<open>HtmlData ps =
           ''<h3>New Contact Submission</h3>'' @
           ''<p><strong>Name:</strong> '' @ escaped name @ ''</p>'' @
           ''<p><strong>Email:</strong> '' @ escaped email @ ''</p>'' @
           ''<p><strong>Message:</strong></p>'' @
           ''<pre style="white-space:pre-wrap;font-family:ui-monospace,Menlo,Consolas,monospace;padding:12px;background:#f6f8fa;border:1px solid #d0d7de;border-radius:6px;">'' @
           escaped message @ ''</pre>'' @
           ''<hr style="margin:20px 0;border:none;border-top:1px solid #d0d7de;"/>'' @
           ''<p style="font-size:12px;color:#57606a;">'' @
           ''<strong>Timestamp:</strong> '' @ escaped now @ ''<br/>'' @
           ''<strong>IP:</strong> '' @ escaped ip @ ''<br/>'' @
           ''<strong>User Agent:</strong> '' @ escaped ua @
           ''</p>''\<close>
    unfolding html_eq html_data_def esc ..
  have text_shape: \<open>TextData ps =
           ''New submission from: '' @ name @ ''\<newline>'' @
           ''Email: '' @ email @ ''\<newline>'' @
           ''Message: '' @ message @ ''\<newline>\<newline>'' @
           ''---\<newline>'' @
           ''Timestamp: '' @ now @ ''\<newline>'' @
           ''IP: '' @ ip @ ''\<newline>'' @
           ''User Agent: '' @ ua @ ''\<newline>''\<close>
    unfolding text_eq text_data_def ..
  have inside_html: "sublist (escaped name) (HtmlData ps)" "sublist (escaped email) (HtmlData ps)"
    "sublist (escaped message) (HtmlData ps)" "sublist (escaped now) (HtmlData ps)"
    "sublist (escaped ip) (HtmlData ps)" "sublist (escaped ua) (HtmlData ps)"
    unfolding html_eq esc [symmetric] by (rule html_data_contains)+
  have inside_text: "sublist name (TextData ps)" "sublist email (TextData ps)"
    "sublist message (TextData ps)"
    unfolding text_eq by (rule text_data_contains)+
  have markup: \<open>filter (\<lambda>c. c \<in> {CHR ''<'', CHR ''>'', CHR ''"'', CHR 0x27}) (HtmlData ps) =
      filter (\<lambda>c. c \<in> {CHR ''<'', CHR ''>'', CHR ''"'', CHR 0x27}) (html_data [] [] [] [] [] [])\<close>
    unfolding html_eq by (rule html_data_markup)
  from sends esc html_shape text_shape inside_html inside_text markup script
  show ?thesis by blast
qed


lemma markup_fields:
  \<open>trimmed_field (form_payload ''Jo'' ''jo@example.com'' markup_message) ''name'' = Some ''Jo''\<close>
  \<open>trimmed_field (form_payload ''Jo'' ''jo@example.com'' markup_message) ''email'' = Some ''jo@example.com''\<close>
  \<open>trimmed_field (form_payload ''Jo'' ''jo@example.com'' markup_message) ''message'' =
     Some ''<script>alert(1)</script> & it's "here"''\<close>
  \<open>trimmed_field (form_payload ''Jo'' ''jo@example.com'' markup_message) ''turnstileToken'' = Some ''tok''\<close>
  \<open>get_field (form_payload ''Jo'' ''jo@example.com'' markup_message) ''message'' =
     Some (JStr markup_message)\<close>
  by (simp_all add: form_payload_def markup_message_def trimmed_field_def trim_def js_whitespace_def)

text \<open>
  A message with a script element, an ampersand, an apostrophe and double quotes,
  between white space.
\<close>

theorem html_body_escaped_text_body_verbatim_witness:
  \<open>filter is_send (effects (fetch
       (parsing markup_body (form_payload ''Jo'' ''jo@example.com'' markup_message))
       jo_env (posted markup_body))) =
     [SES_send (sesClient jo_env)
        (params ''Jo'' ''jo@example.com'' ''<script>alert(1)</script> & it's "here"''
           ''2025-01-01T12:00:00.000Z'' ''203.0.113.7'' ''Mozilla/5.0'')] \<and>
   escapeHtml ''<script>alert(1)</script> & it's "here"'' =
     ''&lt;script&gt;alert(1)&lt;/script&gt; &amp; it&#39;s &quot;here&quot;'' \<and>
   HtmlData (params ''Jo'' ''jo@example.com'' ''<script>alert(1)</script> & it's "here"''
           ''2025-01-01T12:00:00.000Z'' ''203.0.113.7'' ''Mozilla/5.0'') =
     ''<h3>New Contact Submission</h3><p><strong>Name:</strong> Jo</p><p><strong>Email:</strong> jo@example.com</p><p><strong>Message:</strong></p><pre style="white-space:pre-wrap;font-family:ui-monospace,Menlo,Consolas,monospace;padding:12px;background:#f6f8fa;border:1px solid #d0d7de;border-radius:6px;">&lt;script&gt;alert(1)&lt;/script&gt; &amp; it&#39;s &quot;here&quot;</pre><hr style="margin:20px 0;border:none;border-top:1px solid #d0d7de;"/><p style="font-size:12px;color:#57606a;"><strong>Timestamp:</strong> 2025-01-01T12:00:00.000Z<br/><strong>IP:</strong> 203.0.113.7<br/><strong>User Agent:</strong> Mozilla/5.0</p>'' \<and>
   TextData (params ''Jo'' ''jo@example.com'' ''<script>alert(1)</script> & it's "here"''
           ''2025-01-01T12:00:00.000Z'' ''203.0.113.7'' ''Mozilla/5.0'') =
     ''New submission from: Jo\<newline>Email: jo@example.com\<newline>Message: <script>alert(1)</script> & it's "here"\<newline>\<newline>---\<newline>Timestamp: 2025-01-01T12:00:00.000Z\<newline>IP: 203.0.113.7\<newline>User Agent: Mozilla/5.0\<newline>'' \<and>
   sublist ''&lt;script&gt;alert(1)&lt;/script&gt;''
     (HtmlData (params ''Jo'' ''jo@example.com'' ''<script>alert(1)</script> & it's "here"''
           ''2025-01-01T12:00:00.000Z'' ''203.0.113.7'' ''Mozilla/5.0'')) \<and>
   sublist ''<script>alert(1)</script>''
     (TextData (params ''Jo'' ''jo@example.com'' ''<script>alert(1)</script> & it's "here"''
           ''2025-01-01T12:00:00.000Z'' ''203.0.113.7'' ''Mozilla/5.0''))\<close>
proof -
  have inside: "sublist ''<script>alert(1)</script>'' markup_message"
    unfolding markup_message_def
    using sublist_appendI [of "''<script>alert(1)</script>''" "''  ''" \<open>'' & it's "here"  ''\<close>]
    by simp
  have size: "length markup_body \<le> MAX_BODY_BYTES"
    by (simp add: markup_body_def MAX_BODY_BYTES_def)
  from html_body_escaped_text_body_verbatim
    [of "posted markup_body" jo_env Map.empty
      "parsing markup_body (form_payload ''Jo'' ''jo@example.com'' markup_message)"
      "form_payload ''Jo'' ''jo@example.com'' markup_message"
      "''Jo''" "''jo@example.com''" \<open>''<script>alert(1)</script> & it's "here"''\<close> "''tok''"
      "JObj [(''success'', JBool True), (''hostname'', JStr ''raduhhr.xyz'')]"]
    inside size
  show ?thesis
    by (clarsimp simp add: posted_setting jo_setting markup_fields jo_email ALLOWED_ORIGINS_def
        previous_count_None optional_field_def hostname_allowed_def ALLOWED_TURNSTILE_HOSTNAMES_def)
qed

subsection \<open>The matcher decides the language of the pattern\<close>

lemma Nil_in_conc: "[] \<in> conc A B \<longleftrightarrow> [] \<in> A \<and> [] \<in> B"
  by (auto simp: conc_def)

lemma nullable_lang: "nullable r \<longleftrightarrow> [] \<in> lang r"
proof (induction r)
  case (RStar r)
  have "[] \<in> pow (lang r) 0" by simp
  then show ?case by (auto simp del: pow.simps)
next
  case (RPlus r)
  have "[] \<in> pow (lang r) 0" by simp
  then have "[] \<in> (\<Union>k. pow (lang r) k)" by (auto simp del: pow.simps)
  with RPlus show ?case by (simp add: Nil_in_conc)
next
  case (RUpto n r)
  have "[] \<in> pow (lang r) 0" by simp
  then show ?case by (auto simp del: pow.simps intro!: bexI [of _ 0])
qed (auto simp: Nil_in_conc)

lemma rest_after_conc:
  "rest_after c (conc A B) =
     conc (rest_after c A) B \<union> (if [] \<in> A then rest_after c B else {})"
proof (intro set_eqI iffI)
  fix xs assume "xs \<in> rest_after c (conc A B)"
  then obtain u v where uv: "c # xs = u @ v" "u \<in> A" "v \<in> B"
    by (auto simp: rest_after_def conc_def)
  show "xs \<in> conc (rest_after c A) B \<union> (if [] \<in> A then rest_after c B else {})"
  proof (cases u)
    case Nil
    with uv show ?thesis by (auto simp: rest_after_def)
  next
    case (Cons a u')
    with uv have "c # u' \<in> A" "xs = u' @ v" by auto
    with uv(3) show ?thesis by (auto simp: rest_after_def conc_def)
  qed
next
  fix xs assume "xs \<in> conc (rest_after c A) B \<union> (if [] \<in> A then rest_after c B else {})"
  then consider u v where "xs = u @ v" "c # u \<in> A" "v \<in> B" | "[] \<in> A" "c # xs \<in> B"
    by (auto simp: rest_after_def conc_def split: if_splits)
  then show "xs \<in> rest_after c (conc A B)"
  proof cases
    case 1
    then have "c # xs = (c # u) @ v" by simp
    with 1 show ?thesis unfolding rest_after_def conc_def by blast
  next
    case 2
    then have "c # xs = [] @ (c # xs)" by simp
    with 2 show ?thesis unfolding rest_after_def conc_def by blast
  qed
qed

lemma pow_step:
  "c # xs \<in> pow A k \<Longrightarrow> \<exists>j<k. xs \<in> conc (rest_after c A) (pow A j)"
proof (induction k)
  case 0
  then show ?case by simp
next
  case (Suc k)
  then have "xs \<in> rest_after c (conc A (pow A k))"
    by (simp add: rest_after_def)
  then have "xs \<in> conc (rest_after c A) (pow A k) \<or> c # xs \<in> pow A k"
    unfolding rest_after_conc by (cases "[] \<in> A") (simp_all add: rest_after_def [of c "pow A k"])
  then show ?case
  proof
    assume "xs \<in> conc (rest_after c A) (pow A k)"
    then show ?thesis by blast
  next
    assume "c # xs \<in> pow A k"
    from Suc.IH [OF this] show ?thesis using less_Suc_eq by blast
  qed
qed

lemma pow_grow:
  "xs \<in> conc (rest_after c A) (pow A j) \<Longrightarrow> c # xs \<in> pow A (Suc j)"
proof -
  assume "xs \<in> conc (rest_after c A) (pow A j)"
  then have "xs \<in> rest_after c (conc A (pow A j))"
    by (simp add: rest_after_conc)
  then show ?thesis by (simp add: rest_after_def)
qed

lemma conc_Union: "conc A (\<Union>k \<in> K. B k) = (\<Union>k \<in> K. conc A (B k))"
  by (auto simp: conc_def)

lemma rest_after_star:
  "rest_after c (\<Union>k. pow A k) = conc (rest_after c A) (\<Union>k. pow A k)"
proof (intro set_eqI iffI)
  fix xs assume "xs \<in> rest_after c (\<Union>k. pow A k)"
  then obtain k where "c # xs \<in> pow A k" by (auto simp: rest_after_def)
  from pow_step [OF this] show "xs \<in> conc (rest_after c A) (\<Union>k. pow A k)"
    by (auto simp: conc_Union)
next
  fix xs assume "xs \<in> conc (rest_after c A) (\<Union>k. pow A k)"
  then obtain j where "xs \<in> conc (rest_after c A) (pow A j)" by (auto simp: conc_Union)
  from pow_grow [OF this] show "xs \<in> rest_after c (\<Union>k. pow A k)"
    unfolding rest_after_def by blast
qed

lemma rest_after_upto:
  "rest_after c (\<Union>k \<in> {..n}. pow A k) =
     (if n = 0 then {} else conc (rest_after c A) (\<Union>k \<in> {..n - 1}. pow A k))"
proof (cases "n = 0")
  case True
  then show ?thesis by (simp add: rest_after_def)
next
  case False
  have "rest_after c (\<Union>k \<in> {..n}. pow A k) = conc (rest_after c A) (\<Union>k \<in> {..n - 1}. pow A k)"
  proof (intro set_eqI iffI)
    fix xs assume "xs \<in> rest_after c (\<Union>k \<in> {..n}. pow A k)"
    then obtain k where k: "k \<le> n" "c # xs \<in> pow A k" by (auto simp: rest_after_def)
    from pow_step [OF k(2)] obtain j where "j < k" "xs \<in> conc (rest_after c A) (pow A j)"
      by blast
    moreover from this k have "j \<le> n - 1" by simp
    ultimately show "xs \<in> conc (rest_after c A) (\<Union>k \<in> {..n - 1}. pow A k)"
      unfolding conc_Union by blast
  next
    fix xs assume "xs \<in> conc (rest_after c A) (\<Union>k \<in> {..n - 1}. pow A k)"
    then obtain j where j: "j \<le> n - 1" "xs \<in> conc (rest_after c A) (pow A j)"
      by (auto simp: conc_Union)
    from pow_grow [OF j(2)] have "c # xs \<in> pow A (Suc j)" .
    moreover from j False have "Suc j \<le> n" by simp
    ultimately show "xs \<in> rest_after c (\<Union>k \<in> {..n}. pow A k)"
      unfolding rest_after_def by blast
  qed
  with False show ?thesis by simp
qed

lemma lang_deriv: "lang (deriv c r) = rest_after c (lang r)"
proof (induction r)
  case RNone
  show ?case by (simp add: rest_after_def)
next
  case REps
  show ?case by (simp add: rest_after_def)
next
  case (RClass P)
  show ?case by (auto simp: rest_after_def)
next
  case (RSeq r s)
  then show ?case by (simp add: rest_after_conc nullable_lang)
next
  case (RAlt r s)
  then show ?case by (auto simp: rest_after_def)
next
  case (RStar r)
  then show ?case by (simp add: rest_after_star del: pow.simps)
next
  case (RPlus r)
  then show ?case by (simp add: rest_after_conc rest_after_star del: pow.simps)
next
  case (ROpt r)
  then show ?case by (auto simp: rest_after_def)
next
  case (RUpto n r)
  then show ?case by (simp add: rest_after_upto del: pow.simps)
qed

lemma regex_test_lang: "regex_test r s \<longleftrightarrow> s \<in> lang r"
  unfolding regex_test_def
proof (induction s arbitrary: r)
  case Nil
  show ?case by (simp add: nullable_lang)
next
  case (Cons c s)
  show ?case by (simp add: Cons.IH lang_deriv rest_after_def)
qed

lemma isValidEmail_lang: "isValidEmail email \<Longrightarrow> email \<in> lang pattern"
  by (auto simp: isValidEmail_def regex_test_lang split: if_splits)

subsection \<open>Field validation\<close>

lemma isValidEmail_bounds:
  assumes "isValidEmail email"
  shows "3 \<le> length email" "length email \<le> 254"
    "CHR 0x0D \<notin> set email" "CHR 0x0A \<notin> set email" "CHR 0x09 \<notin> set email"
    "regex_test pattern email"
  using assms by (auto simp: isValidEmail_def split: if_splits)

lemma a_b_co: "isValidEmail ''a@b.co''"
  by (simp add: isValidEmail_def regex_test_def pattern_def domain_label_def alnum_def
      alnum_hyphen_def local_char_def)

text \<open>
  C8. For a request that reaches the field validation with four non-empty trimmed
  fields: a name shorter than 2 or longer than 100 is answered with 400; otherwise an
  invalid email is; otherwise a message shorter than 10 or longer than 2000 is; each
  with its own message and without a further call. Otherwise the handler goes on to
  verify the token. The email a@b.co is valid; an email with a line feed is not; a
  valid email has 3 to 254 characters, no CR, LF or TAB, and matches the pattern.
\<close>

theorem field_validation_boundaries:
  fixes sv :: services and env :: env and req :: request and kv :: kv_namespace
  defines "origin \<equiv> or_default (header_Origin req) []"
  defines "ip \<equiv> or_default (header_CF_Connecting_IP req) ''unknown''"
  defines "secret \<equiv> or_default (TURNSTILE_SECRET_KEY env) []"
  defines "unverified \<equiv> [KV_get (rateLimitKey ip), Request_text, JSON_parse_of (body_text req)]"
  assumes origin: "origin = [] \<or> origin \<in> ALLOWED_ORIGINS"
    and post: "request_method req = ''POST''"
    and env: "secret \<noteq> []" "or_default (AWS_ACCESS_KEY_ID env) [] \<noteq> []"
      "or_default (AWS_SECRET_ACCESS_KEY env) [] \<noteq> []" "RATE_LIMITER env = Some kv"
    and get: "kv_get_resolves sv"
    and count: "previous_count (map_option fst (kv (rateLimitKey ip))) < 5"
    and size: "length (body_text req) \<le> MAX_BODY_BYTES"
    and parse: "JSON_parse sv (body_text req) = Some payload"
    and fields: "trimmed_field payload ''name'' = Some name"
      "trimmed_field payload ''email'' = Some email"
      "trimmed_field payload ''message'' = Some message"
      "trimmed_field payload ''turnstileToken'' = Some token"
    and present: "name \<noteq> []" "email \<noteq> []" "message \<noteq> []" "token \<noteq> []"
  shows "(length name < 2 \<or> 100 < length name \<longrightarrow>
            status (result (fetch sv env req)) = 400 \<and>
            body (result (fetch sv env req)) =
              Some [(''error'', ''Name must be between 2 and 100 characters'')] \<and>
            effects (fetch sv env req) = unverified) \<and>
         (2 \<le> length name \<and> length name \<le> 100 \<and> \<not> isValidEmail email \<longrightarrow>
            status (result (fetch sv env req)) = 400 \<and>
            body (result (fetch sv env req)) = Some [(''error'', ''Invalid email address'')] \<and>
            effects (fetch sv env req) = unverified) \<and>
         (2 \<le> length name \<and> length name \<le> 100 \<and> isValidEmail email \<and>
          (length message < 10 \<or> 2000 < length message) \<longrightarrow>
            status (result (fetch sv env req)) = 400 \<and>
            body (result (fetch sv env req)) =
              Some [(''error'', ''Message must be between 10 and 2000 characters'')] \<and>
            effects (fetch sv env req) = unverified) \<and>
         (2 \<le> length name \<and> length name \<le> 100 \<and> isValidEmail email \<and>
          10 \<le> length message \<and> length message \<le> 2000 \<longrightarrow>
            Siteverify (turnstile_form token secret ip) \<in> set (effects (fetch sv env req))) \<and>
         isValidEmail ''a@b.co'' \<and>
         (CHR 0x0A \<in> set email \<longrightarrow> \<not> isValidEmail email) \<and>
         (isValidEmail email \<longrightarrow>
            3 \<le> length email \<and> length email \<le> 254 \<and>
            CHR 0x0D \<notin> set email \<and> CHR 0x09 \<notin> set email \<and> regex_test pattern email)"
proof -
  have nl: "\<not> over_limit (map_option fst (kv (rateLimitKey (or_default (header_CF_Connecting_IP req) ''unknown''))))"
    using count by (simp add: over_limit_iff ip_def)
  note f = fetch_post [OF origin [unfolded origin_def] post]
  note tb = try_block_proceeds [OF env [unfolded secret_def] get nl size parse]
  note pp = process_payload_fields [OF fields]
  let ?hdrs = "buildCorsHeaders (or_default (header_Origin req) []) @ buildSecurityHeaders"
  let ?vf = "validate_fields sv env req ?hdrs kv ip (map_option fst (kv (rateLimitKey ip)))
               name email message token"
  have run: "fetch sv env req =
      \<lparr>result = (case result ?vf of Some resp \<Rightarrow> resp
          | None \<Rightarrow> json [(''error'', ''Failed to send email. Please try again later.'')] 500 ?hdrs),
       effects = unverified @ effects ?vf, store = store ?vf\<rparr>"
    unfolding f tb pp Let_def unverified_def ip_def
    by (simp add: after_effects_def)
  have name: "status (result (fetch sv env req)) = 400 \<and>
            body (result (fetch sv env req)) =
              Some [(''error'', ''Name must be between 2 and 100 characters'')] \<and>
            effects (fetch sv env req) = unverified"
    if "length name < 2 \<or> 100 < length name"
    using that present by (auto simp: run validate_fields_def json_def)
  have email: "status (result (fetch sv env req)) = 400 \<and>
            body (result (fetch sv env req)) = Some [(''error'', ''Invalid email address'')] \<and>
            effects (fetch sv env req) = unverified"
    if "2 \<le> length name \<and> length name \<le> 100 \<and> \<not> isValidEmail email"
    using that present by (auto simp: run validate_fields_def json_def)
  have message: "status (result (fetch sv env req)) = 400 \<and>
            body (result (fetch sv env req)) =
              Some [(''error'', ''Message must be between 10 and 2000 characters'')] \<and>
            effects (fetch sv env req) = unverified"
    if "2 \<le> length name \<and> length name \<le> 100 \<and> isValidEmail email \<and>
          (length message < 10 \<or> 2000 < length message)"
    using that present by (auto simp: run validate_fields_def json_def)
  have passes: "Siteverify (turnstile_form token secret ip) \<in> set (effects (fetch sv env req))"
    if "2 \<le> length name \<and> length name \<le> 100 \<and> isValidEmail email \<and>
          10 \<le> length message \<and> length message \<le> 2000"
  proof -
    from that present have "?vf = verify_and_send sv env req ?hdrs kv ip
        (map_option fst (kv (rateLimitKey ip))) name email message token"
      by (intro validate_fields_passes) simp_all
    then show ?thesis
      by (simp add: run siteverify_in_verify_and_send secret_def)
  qed
  show ?thesis
    using name email message passes a_b_co isValidEmail_bounds [of email] by blast
qed

lemma trim_plain:
  assumes "s \<noteq> []" and "\<not> js_whitespace (hd s)" and "\<not> js_whitespace (last s)"
  shows "trim s = s"
proof -
  from assms(1,2) have front: "dropWhile js_whitespace s = s"
    by (cases s) auto
  from assms(1,3) have "dropWhile js_whitespace (rev s) = rev s"
    by (cases "rev s") (auto simp: last_rev [symmetric] simp del: last_rev)
  with front show ?thesis by (simp add: trim_def)
qed

lemma form_fields:
  assumes "name \<noteq> []" "\<not> js_whitespace (hd name)" "\<not> js_whitespace (last name)"
    and "email \<noteq> []" "\<not> js_whitespace (hd email)" "\<not> js_whitespace (last email)"
    and "message \<noteq> []" "\<not> js_whitespace (hd message)" "\<not> js_whitespace (last message)"
  shows "trimmed_field (form_payload name email message) ''name'' = Some name"
    and "trimmed_field (form_payload name email message) ''email'' = Some email"
    and "trimmed_field (form_payload name email message) ''message'' = Some message"
    and "trimmed_field (form_payload name email message) ''turnstileToken'' = Some ''tok''"
  using assms by (simp_all add: form_payload_def trimmed_field_def trim_plain)
    (simp add: trim_def js_whitespace_def)

lemma length_form_body:
  "length (form_body name email message) = 58 + length name + length email + length message"
  by (simp add: form_body_def)

lemma plain_chars:
  "\<not> js_whitespace (CHR ''a'')" "\<not> js_whitespace (CHR ''x'')" "\<not> js_whitespace (CHR ''J'')"
  "\<not> js_whitespace (CHR ''o'')"
  by (simp_all add: js_whitespace_def)

text \<open>
  The boundaries: names of 2 and 100 with messages of 10 and 2000 characters pass;
  names of 1 and 101, messages of 9 and 2001 characters and an email with a line feed
  do not.
\<close>

theorem field_validation_boundaries_witness:
  "Siteverify (turnstile_form ''tok'' ''turnstile-secret'' ''203.0.113.7'')
     \<in> set (effects (submit_form ''Jo'' ''a@b.co'' (replicate 10 (CHR ''x'')))) \<and>
   Siteverify (turnstile_form ''tok'' ''turnstile-secret'' ''203.0.113.7'')
     \<in> set (effects (submit_form (replicate 100 (CHR ''a'')) ''a@b.co'' (replicate 2000 (CHR ''x'')))) \<and>
   body (result (submit_form ''J'' ''a@b.co'' (replicate 10 (CHR ''x'')))) =
     Some [(''error'', ''Name must be between 2 and 100 characters'')] \<and>
   body (result (submit_form (replicate 101 (CHR ''a'')) ''a@b.co'' (replicate 10 (CHR ''x'')))) =
     Some [(''error'', ''Name must be between 2 and 100 characters'')] \<and>
   body (result (submit_form ''Jo'' ''a@b.co'' (replicate 9 (CHR ''x'')))) =
     Some [(''error'', ''Message must be between 10 and 2000 characters'')] \<and>
   body (result (submit_form ''Jo'' ''a@b.co'' (replicate 2001 (CHR ''x'')))) =
     Some [(''error'', ''Message must be between 10 and 2000 characters'')] \<and>
   body (result (submit (form_body ''Jo'' (''a'' @ [CHR 0x5C] @ ''n@b.co'') (replicate 10 (CHR ''x'')))
        (form_payload ''Jo'' ''a\<newline>@b.co'' (replicate 10 (CHR ''x''))))) =
     Some [(''error'', ''Invalid email address'')]"
proof -
  have two_ten:
    "Siteverify (turnstile_form ''tok'' ''turnstile-secret'' ''203.0.113.7'')
        \<in> set (effects (submit_form ''Jo'' ''a@b.co'' (replicate 10 (CHR ''x''))))"
    using field_validation_boundaries
      [of "posted (form_body ''Jo'' ''a@b.co'' (replicate 10 (CHR ''x'')))" jo_env Map.empty
        "parsing (form_body ''Jo'' ''a@b.co'' (replicate 10 (CHR ''x'')))
           (form_payload ''Jo'' ''a@b.co'' (replicate 10 (CHR ''x'')))"
        "form_payload ''Jo'' ''a@b.co'' (replicate 10 (CHR ''x''))"
        "''Jo''" "''a@b.co''" "replicate 10 (CHR ''x'')" "''tok''"]
    by (simp add: submit_form_def submit_def posted_setting jo_setting form_fields plain_chars
        length_form_body MAX_BODY_BYTES_def previous_count_None ALLOWED_ORIGINS_def a_b_co
        js_whitespace_def)
  have hundred_two_thousand:
    "Siteverify (turnstile_form ''tok'' ''turnstile-secret'' ''203.0.113.7'')
        \<in> set (effects (submit_form (replicate 100 (CHR ''a'')) ''a@b.co'' (replicate 2000 (CHR ''x''))))"
    using field_validation_boundaries
      [of "posted (form_body (replicate 100 (CHR ''a'')) ''a@b.co'' (replicate 2000 (CHR ''x'')))" jo_env Map.empty
        "parsing (form_body (replicate 100 (CHR ''a'')) ''a@b.co'' (replicate 2000 (CHR ''x'')))
           (form_payload (replicate 100 (CHR ''a'')) ''a@b.co'' (replicate 2000 (CHR ''x'')))"
        "form_payload (replicate 100 (CHR ''a'')) ''a@b.co'' (replicate 2000 (CHR ''x''))"
        "replicate 100 (CHR ''a'')" "''a@b.co''" "replicate 2000 (CHR ''x'')" "''tok''"]
    by (simp add: submit_form_def submit_def posted_setting jo_setting form_fields plain_chars
        length_form_body MAX_BODY_BYTES_def previous_count_None ALLOWED_ORIGINS_def a_b_co
        js_whitespace_def)
  have one:
    "body (result (submit_form ''J'' ''a@b.co'' (replicate 10 (CHR ''x'')))) =
        Some [(''error'', ''Name must be between 2 and 100 characters'')]"
    using field_validation_boundaries
      [of "posted (form_body ''J'' ''a@b.co'' (replicate 10 (CHR ''x'')))" jo_env Map.empty
        "parsing (form_body ''J'' ''a@b.co'' (replicate 10 (CHR ''x'')))
           (form_payload ''J'' ''a@b.co'' (replicate 10 (CHR ''x'')))"
        "form_payload ''J'' ''a@b.co'' (replicate 10 (CHR ''x''))"
        "''J''" "''a@b.co''" "replicate 10 (CHR ''x'')" "''tok''"]
    by (simp add: submit_form_def submit_def posted_setting jo_setting form_fields plain_chars
        length_form_body MAX_BODY_BYTES_def previous_count_None ALLOWED_ORIGINS_def a_b_co
        js_whitespace_def)
  have hundred_one:
    "body (result (submit_form (replicate 101 (CHR ''a'')) ''a@b.co'' (replicate 10 (CHR ''x'')))) =
        Some [(''error'', ''Name must be between 2 and 100 characters'')]"
    using field_validation_boundaries
      [of "posted (form_body (replicate 101 (CHR ''a'')) ''a@b.co'' (replicate 10 (CHR ''x'')))" jo_env Map.empty
        "parsing (form_body (replicate 101 (CHR ''a'')) ''a@b.co'' (replicate 10 (CHR ''x'')))
           (form_payload (replicate 101 (CHR ''a'')) ''a@b.co'' (replicate 10 (CHR ''x'')))"
        "form_payload (replicate 101 (CHR ''a'')) ''a@b.co'' (replicate 10 (CHR ''x''))"
        "replicate 101 (CHR ''a'')" "''a@b.co''" "replicate 10 (CHR ''x'')" "''tok''"]
    by (simp add: submit_form_def submit_def posted_setting jo_setting form_fields plain_chars
        length_form_body MAX_BODY_BYTES_def previous_count_None ALLOWED_ORIGINS_def a_b_co
        js_whitespace_def)
  have nine:
    "body (result (submit_form ''Jo'' ''a@b.co'' (replicate 9 (CHR ''x'')))) =
        Some [(''error'', ''Message must be between 10 and 2000 characters'')]"
    using field_validation_boundaries
      [of "posted (form_body ''Jo'' ''a@b.co'' (replicate 9 (CHR ''x'')))" jo_env Map.empty
        "parsing (form_body ''Jo'' ''a@b.co'' (replicate 9 (CHR ''x'')))
           (form_payload ''Jo'' ''a@b.co'' (replicate 9 (CHR ''x'')))"
        "form_payload ''Jo'' ''a@b.co'' (replicate 9 (CHR ''x''))"
        "''Jo''" "''a@b.co''" "replicate 9 (CHR ''x'')" "''tok''"]
    by (simp add: submit_form_def submit_def posted_setting jo_setting form_fields plain_chars
        length_form_body MAX_BODY_BYTES_def previous_count_None ALLOWED_ORIGINS_def a_b_co
        js_whitespace_def)
  have two_thousand_one:
    "body (result (submit_form ''Jo'' ''a@b.co'' (replicate 2001 (CHR ''x'')))) =
        Some [(''error'', ''Message must be between 10 and 2000 characters'')]"
    using field_validation_boundaries
      [of "posted (form_body ''Jo'' ''a@b.co'' (replicate 2001 (CHR ''x'')))" jo_env Map.empty
        "parsing (form_body ''Jo'' ''a@b.co'' (replicate 2001 (CHR ''x'')))
           (form_payload ''Jo'' ''a@b.co'' (replicate 2001 (CHR ''x'')))"
        "form_payload ''Jo'' ''a@b.co'' (replicate 2001 (CHR ''x''))"
        "''Jo''" "''a@b.co''" "replicate 2001 (CHR ''x'')" "''tok''"]
    by (simp add: submit_form_def submit_def posted_setting jo_setting form_fields plain_chars
        length_form_body MAX_BODY_BYTES_def previous_count_None ALLOWED_ORIGINS_def a_b_co
        js_whitespace_def)
  have newline:
    "body (result (submit (form_body ''Jo'' (''a'' @ [CHR 0x5C] @ ''n@b.co'') (replicate 10 (CHR ''x'')))
        (form_payload ''Jo'' ''a\<newline>@b.co'' (replicate 10 (CHR ''x''))))) =
     Some [(''error'', ''Invalid email address'')]"
    using field_validation_boundaries
      [of "posted (form_body ''Jo'' (''a'' @ [CHR 0x5C] @ ''n@b.co'') (replicate 10 (CHR ''x'')))" jo_env Map.empty
        "parsing (form_body ''Jo'' (''a'' @ [CHR 0x5C] @ ''n@b.co'') (replicate 10 (CHR ''x'')))
           (form_payload ''Jo'' ''a\<newline>@b.co'' (replicate 10 (CHR ''x'')))"
        "form_payload ''Jo'' ''a\<newline>@b.co'' (replicate 10 (CHR ''x''))"
        "''Jo''" "''a\<newline>@b.co''" "replicate 10 (CHR ''x'')" "''tok''"]
    by (simp add: submit_def posted_setting jo_setting form_fields plain_chars length_form_body
        MAX_BODY_BYTES_def previous_count_None ALLOWED_ORIGINS_def js_whitespace_def)
  from two_ten hundred_two_thousand one hundred_one nine two_thousand_one newline
  show ?thesis by blast
qed

subsection \<open>Payloads that make the extraction throw\<close>

lemma trimmed_field_throws:
  "trimmed_field JNull k = None"
  "get_field payload k = Some v \<Longrightarrow> truthy v \<Longrightarrow> \<forall>s. v \<noteq> JStr s \<Longrightarrow> trimmed_field payload k = None"
  by (cases v; simp add: trimmed_field_def)+

lemma process_payload_throws:
  assumes "trimmed_field payload ''name'' = None \<or> trimmed_field payload ''email'' = None \<or>
           trimmed_field payload ''message'' = None \<or> trimmed_field payload ''turnstileToken'' = None"
  shows "process_payload sv env req hdrs kv ip sc payload =
           \<lparr>result = None, effects = [], store = Some kv\<rparr>"
  using assms by (auto simp: process_payload_def Let_def split: option.splits)

text \<open>
  C10. When the parsed body is null, or one of the four fields is a truthy value
  that is not a string, extracting the fields throws: the response is the 500 of the
  catch, after the KV read, the body read and the parse only.
\<close>

theorem non_string_field_gives_500:
  fixes sv :: services and env :: env and req :: request and kv :: kv_namespace
  defines "origin \<equiv> or_default (header_Origin req) []"
  defines "ip \<equiv> or_default (header_CF_Connecting_IP req) ''unknown''"
  assumes origin: "origin = [] \<or> origin \<in> ALLOWED_ORIGINS"
    and post: "request_method req = ''POST''"
    and env: "or_default (TURNSTILE_SECRET_KEY env) [] \<noteq> []"
      "or_default (AWS_ACCESS_KEY_ID env) [] \<noteq> []"
      "or_default (AWS_SECRET_ACCESS_KEY env) [] \<noteq> []" "RATE_LIMITER env = Some kv"
    and get: "kv_get_resolves sv"
    and count: "previous_count (map_option fst (kv (rateLimitKey ip))) < 5"
    and size: "length (body_text req) \<le> MAX_BODY_BYTES"
    and parse: "JSON_parse sv (body_text req) = Some payload"
    and bad: "payload = JNull \<or>
              (\<exists>k \<in> {''name'', ''email'', ''message'', ''turnstileToken''}.
                 \<exists>v. get_field payload k = Some v \<and> truthy v \<and> (\<forall>s. v \<noteq> JStr s))"
  shows "status (result (fetch sv env req)) = 500 \<and>
         body (result (fetch sv env req)) =
           Some [(''error'', ''Failed to send email. Please try again later.'')] \<and>
         effects (fetch sv env req) =
           [KV_get (rateLimitKey ip), Request_text, JSON_parse_of (body_text req)] \<and>
         store (fetch sv env req) = Some kv"
proof -
  have nl: "\<not> over_limit (map_option fst (kv (rateLimitKey (or_default (header_CF_Connecting_IP req) ''unknown''))))"
    using count by (simp add: over_limit_iff ip_def)
  note f = fetch_post [OF origin [unfolded origin_def] post]
  note tb = try_block_proceeds [OF env get nl size parse]
  from bad have "trimmed_field payload ''name'' = None \<or> trimmed_field payload ''email'' = None \<or>
           trimmed_field payload ''message'' = None \<or> trimmed_field payload ''turnstileToken'' = None"
    using trimmed_field_throws by auto
  note pp = process_payload_throws [OF this]
  show ?thesis
    unfolding f tb Let_def pp ip_def
    by (simp add: after_effects_def json_def)
qed

text \<open>The body null, and a number as the name.\<close>

theorem non_string_field_gives_500_witness:
  \<open>status (result (submit ''null'' JNull)) = 500 \<and>
   body (result (submit ''null'' JNull)) =
     Some [(''error'', ''Failed to send email. Please try again later.'')] \<and>
   status (result (submit
      ''{"name":42,"email":"jo@example.com","message":"Hello there, this works!","turnstileToken":"tok"}''
      (JObj [(''name'', JNum 42), (''email'', JStr ''jo@example.com''),
             (''message'', JStr ''Hello there, this works!''), (''turnstileToken'', JStr ''tok'')]))) = 500 \<and>
   effects (submit
      ''{"name":42,"email":"jo@example.com","message":"Hello there, this works!","turnstileToken":"tok"}''
      (JObj [(''name'', JNum 42), (''email'', JStr ''jo@example.com''),
             (''message'', JStr ''Hello there, this works!''), (''turnstileToken'', JStr ''tok'')])) =
     [KV_get ''ratelimit:203.0.113.7'', Request_text,
      JSON_parse_of ''{"name":42,"email":"jo@example.com","message":"Hello there, this works!","turnstileToken":"tok"}'']\<close>
proof -
  let ?text = \<open>''{"name":42,"email":"jo@example.com","message":"Hello there, this works!","turnstileToken":"tok"}''\<close>
  let ?payload = "JObj [(''name'', JNum 42), (''email'', JStr ''jo@example.com''),
             (''message'', JStr ''Hello there, this works!''), (''turnstileToken'', JStr ''tok'')]"
  have null: "status (result (submit ''null'' JNull)) = 500 \<and>
      body (result (submit ''null'' JNull)) =
        Some [(''error'', ''Failed to send email. Please try again later.'')]"
    using non_string_field_gives_500
      [of "posted ''null''" jo_env Map.empty "parsing ''null'' JNull" JNull]
    by (simp add: submit_def posted_setting jo_setting MAX_BODY_BYTES_def previous_count_None
        ALLOWED_ORIGINS_def)
  have number: "status (result (submit ?text ?payload)) = 500 \<and>
      effects (submit ?text ?payload) =
        [KV_get ''ratelimit:203.0.113.7'', Request_text, JSON_parse_of ?text]"
    using non_string_field_gives_500
      [of "posted ?text" jo_env Map.empty "parsing ?text ?payload" ?payload]
    by (simp add: submit_def posted_setting jo_setting MAX_BODY_BYTES_def previous_count_None
        ALLOWED_ORIGINS_def rateLimitKey_def)
  from null number show ?thesis by simp
qed

end
